theory Spec2Isabelle
  imports Main
begin

section \<open>Exceptions, values and the environment of a deployment run\<close>

text \<open>
  The Python exceptions that can reach the handlers of the deployment package. All of them
  are subclasses of \<open>Exception\<close>, so every \<open>except Exception\<close> clause catches each of
  them. \<open>GenericException\<close> is a plain \<open>raise Exception(msg)\<close>.
\<close>

datatype error =
    FileNotFoundError string
  | ValueError string
  | ConnectionError string
  | PoolError string
  | DatabaseError string
  | TypeError string
  | KeyError string
  | IndexError string
  | StopIteration
  | GenericException string

text \<open>\<open>str(e)\<close>: the message an exception carries.\<close>

fun str :: "error \<Rightarrow> string" where
  "str (FileNotFoundError m) = m"
| "str (ValueError m) = m"
| "str (ConnectionError m) = m"
| "str (PoolError m) = m"
| "str (DatabaseError m) = m"
| "str (TypeError m) = m"
| "str (KeyError m) = m"
| "str (IndexError m) = m"
| "str StopIteration = []"
| "str (GenericException m) = m"

text \<open>Values of result columns, and Python's truth value of each.\<close>

datatype val = VNull | VBool bool | VInt int | VStr string

fun truthy :: "val \<Rightarrow> bool" where
  "truthy VNull = False"
| "truthy (VBool b) = b"
| "truthy (VInt i) = (i \<noteq> 0)"
| "truthy (VStr s) = (s \<noteq> [])"

text \<open>
  The statements the package sends to the server. Each constructor stands for one SQL text
  of the source: a whole script (\<open>cursor.execute(script)\<close>), \<open>SELECT 1\<close>, the metadata
  query of \<open>get_database_info\<close>, the \<open>information_schema.tables\<close> lookup of
  \<open>table_exists\<close> (schema, table), \<open>SELECT COUNT(*)\<close> of \<open>get_row_count\<close>, the
  \<open>pg_proc\<close> lookup of \<open>verify_deployment\<close>, \<open>COPY schema.table FROM STDIN\<close> with the
  lines of the file after its first line, \<open>INSERT ... ON CONFLICT DO NOTHING\<close> with its column list and
  parameter values, a \<open>SELECT public.f()\<close> procedure call, and the statistics query of
  \<open>_get_pipeline_stats\<close>.
\<close>

datatype stmt =
    Script string
  | SelectOne
  | DatabaseInfoQuery
  | TableExistsQuery string string
  | RowCountQuery string string
  | FunctionExistsQuery string
  | CopyFromStdin string string "string list"
  | InsertOnConflictDoNothing string string "string list" "val list"
  | CallProcedure string
  | PipelineStatsQuery

text \<open>What the server answers: the rows (column name and value) and the row count.\<close>

record reply =
  rows :: "(string \<times> val) list list"
  rowcount :: int

text \<open>
  A CSV file is read in two ways: line by line (\<open>next(f)\<close>, and the stream \<open>COPY\<close> reads),
  and record by record (\<open>csv.DictReader\<close>, the header record first). A record may span
  several lines, so the file is given with both: its physical lines and the records the
  \<open>csv\<close> module parses from it.
\<close>

record csv_file =
  csv_lines :: "string list"
  csv_records :: "string list list"

text \<open>
  The environment of a run is everything the package reads and never writes: the process
  environment variables \<open>DATABASE_URL\<close> and \<open>BATCH_SIZE\<close> (the integer it denotes, when
  set), whether the server accepts connections, how the server reacts to a statement in a
  database state, the clock readings, and the two directory trees.
\<close>

record 'd env =
  database_url :: "string option"
  batch_size_var :: "int option"
  can_connect :: bool
  server :: "stmt \<Rightarrow> 'd \<Rightarrow> (error + reply) \<times> 'd"
  clock :: "nat \<Rightarrow> int"
  sql_base_exists :: bool
  sql_files :: "string \<Rightarrow> string \<Rightarrow> string option"
  csv_base_exists :: bool
  csv_files :: "string \<Rightarrow> csv_file option"

section \<open>The mutable state\<close>

datatype cursor_kind = TupleCursor | RealDictCursor

text \<open>
  A connection object: its two attributes the package assigns, and the database state at
  the start of the transaction in progress, if any.
\<close>

record 'd conn =
  autocommit :: bool
  cursor_factory :: cursor_kind
  txn_start :: "'d option"

text \<open>
  The connection pool of the driver (\<open>psycopg2.pool.ThreadedConnectionPool\<close>, a library
  outside the repository, modelled after its behaviour): the idle connections, the number
  of connections checked out, the number opened so far (the next fresh connection), and
  whether \<open>closeall\<close> has run.
\<close>

record pool =
  minconn :: nat
  maxconn :: nat
  idle :: "nat list"
  used :: nat
  opened :: nat
  closed :: bool

datatype status = Success | Failed | Skipped

text \<open>An entry of \<open>SQLDeployer.deployment_log\<close> and of \<open>DataLoader.load_log\<close>.\<close>

record script_result =
  sr_script :: string
  sr_status :: status
  sr_error :: "string option"
  sr_duration_seconds :: int
  sr_timestamp :: int

record load_result =
  lr_csv_file :: string
  lr_table :: "string option"
  lr_status :: status
  lr_rows_loaded :: "int option"
  lr_error :: "string option"
  lr_duration_seconds :: int
  lr_timestamp :: int

text \<open>
  The state of a run: the pool and the store of connection objects, the database on the
  server, the statements sent so far (in order), the number of clock readings taken, and
  the logs of the deployer and of the loader.
\<close>

record 'd state =
  pool :: pool
  conns :: "nat \<Rightarrow> 'd conn"
  database :: 'd
  calls :: "stmt list"
  ticks :: nat
  deployment_log :: "script_result list"
  load_log :: "load_result list"

type_synonym ('a, 'd) prog = "'d state \<Rightarrow> (error + 'a) \<times> 'd state"

text \<open>\<open>datetime.now(timezone.utc)\<close>: the next reading of the clock.\<close>

definition now :: "'d env \<Rightarrow> 'd state \<Rightarrow> int \<times> 'd state" where
  "now E s = (clock E (ticks s), s\<lparr>ticks := Suc (ticks s)\<rparr>)"

section \<open>utils/config.py\<close>

text \<open>\<open>ConfigManager.batch_size\<close>: \<open>int(os.getenv('BATCH_SIZE', '1000'))\<close>.\<close>

definition ConfigManager_batch_size :: "'d env \<Rightarrow> int" where
  "ConfigManager_batch_size E = (case batch_size_var E of None \<Rightarrow> 1000 | Some n \<Rightarrow> n)"

section \<open>utils/db_manager.py\<close>

subsection \<open>The pool\<close>

definition new_conn :: "'d conn" where
  "new_conn = \<lparr>autocommit = False, cursor_factory = TupleCursor, txn_start = None\<rparr>"

text \<open>\<open>psycopg2.connect\<close>: a fresh connection object, or an error.\<close>

definition connect :: "'d env \<Rightarrow> (nat, 'd) prog" where
  "connect E s =
     (if can_connect E then
        (let c = opened (pool s) in
         (Inr c, s\<lparr>conns := (conns s)(c := new_conn),
                   pool := (pool s)\<lparr>opened := Suc c\<rparr>\<rparr>))
      else (Inl (DatabaseError ''could not connect to server''), s))"

text \<open>The constructor of the pool opens \<open>minconn\<close> connections and keeps them idle.\<close>

fun open_idle :: "'d env \<Rightarrow> nat \<Rightarrow> (unit, 'd) prog" where
  "open_idle E 0 s = (Inr (), s)"
| "open_idle E (Suc n) s =
     (case connect E s of
        (Inl e, s1) \<Rightarrow> (Inl e, s1)
      | (Inr c, s1) \<Rightarrow> open_idle E n (s1\<lparr>pool := (pool s1)\<lparr>idle := idle (pool s1) @ [c]\<rparr>\<rparr>))"

definition ThreadedConnectionPool :: "'d env \<Rightarrow> nat \<Rightarrow> nat \<Rightarrow> (unit, 'd) prog" where
  "ThreadedConnectionPool E min_conn max_conn s =
     open_idle E min_conn
       (s\<lparr>pool := \<lparr>minconn = min_conn, maxconn = max_conn, idle = [], used = 0,
                    opened = 0, closed = False\<rparr>\<rparr>)"

definition getconn :: "'d env \<Rightarrow> (nat, 'd) prog" where
  "getconn E s =
     (let p = pool s in
      if closed p then (Inl (PoolError ''connection pool is closed''), s)
      else if idle p \<noteq> [] then
        (Inr (last (idle p)), s\<lparr>pool := p\<lparr>idle := butlast (idle p), used := Suc (used p)\<rparr>\<rparr>)
      else if used p = maxconn p then (Inl (PoolError ''connection pool exhausted''), s)
      else (case connect E s of
              (Inl e, s1) \<Rightarrow> (Inl e, s1)
            | (Inr c, s1) \<Rightarrow> (Inr c, s1\<lparr>pool := (pool s1)\<lparr>used := Suc (used (pool s1))\<rparr>\<rparr>)))"

text \<open>
  \<open>putconn\<close> keeps the connection while fewer than \<open>minconn\<close> are idle, and closes it
  otherwise. It does not reset any attribute of the connection.
\<close>

definition putconn :: "nat \<Rightarrow> 'd state \<Rightarrow> 'd state" where
  "putconn c s =
     (let p = pool s in
      s\<lparr>pool := p\<lparr>idle := (if length (idle p) < minconn p then idle p @ [c] else idle p),
                   used := used p - 1\<rparr>\<rparr>)"

definition closeall :: "'d state \<Rightarrow> 'd state" where
  "closeall s = s\<lparr>pool := (pool s)\<lparr>idle := [], used := 0, closed := True\<rparr>\<rparr>"

subsection \<open>Connections, transactions and cursors\<close>

text \<open>
  A statement on a connection that is not in autocommit mode opens a transaction if none
  is in progress. \<open>commit\<close> ends it; \<open>rollback\<close> ends it and restores the database.
  On a connection in autocommit mode no transaction is ever in progress, and both do
  nothing.
\<close>

definition begin_txn :: "nat \<Rightarrow> 'd state \<Rightarrow> 'd state" where
  "begin_txn c s =
     (if \<not> autocommit (conns s c) \<and> txn_start (conns s c) = None
      then s\<lparr>conns := (conns s)(c := (conns s c)\<lparr>txn_start := Some (database s)\<rparr>)\<rparr>
      else s)"

definition commit :: "nat \<Rightarrow> 'd state \<Rightarrow> 'd state" where
  "commit c s = s\<lparr>conns := (conns s)(c := (conns s c)\<lparr>txn_start := None\<rparr>)\<rparr>"

definition rollback :: "nat \<Rightarrow> 'd state \<Rightarrow> 'd state" where
  "rollback c s =
     (case txn_start (conns s c) of
        None \<Rightarrow> s
      | Some d \<Rightarrow> s\<lparr>database := d,
                    conns := (conns s)(c := (conns s c)\<lparr>txn_start := None\<rparr>)\<rparr>)"

record cursor =
  cur_conn :: nat
  cur_kind :: cursor_kind

text \<open>\<open>cursor.execute\<close>: the statement is recorded and the server answers.\<close>

definition execute :: "'d env \<Rightarrow> cursor \<Rightarrow> stmt \<Rightarrow> (reply, 'd) prog" where
  "execute E cur q s =
     (let s1 = begin_txn (cur_conn cur) s;
          s2 = s1\<lparr>calls := calls s1 @ [q]\<rparr>
      in case server E q (database s2) of
           (r, d) \<Rightarrow> (r, s2\<lparr>database := d\<rparr>))"

text \<open>
  \<open>cursor.fetchone()\<close> gives the first row, as a tuple or as a dictionary according to the
  kind of the cursor, or \<open>None\<close>. \<open>item0\<close> is \<open>fetchone()[0]\<close> and \<open>item k\<close> is
  \<open>fetchone()[k]\<close> for a column name.
\<close>

datatype row = TupleRow "val list" | DictRow "(string \<times> val) list"

definition fetchone :: "cursor \<Rightarrow> reply \<Rightarrow> row option" where
  "fetchone cur r =
     (case rows r of
        [] \<Rightarrow> None
      | x # _ \<Rightarrow> Some (case cur_kind cur of
                         TupleCursor \<Rightarrow> TupleRow (map snd x)
                       | RealDictCursor \<Rightarrow> DictRow x))"

fun item0 :: "row option \<Rightarrow> error + val" where
  "item0 None = Inl (TypeError ''NoneType object is not subscriptable'')"
| "item0 (Some (TupleRow [])) = Inl (IndexError ''tuple index out of range'')"
| "item0 (Some (TupleRow (v # vs))) = Inr v"
| "item0 (Some (DictRow kvs)) = Inl (KeyError ''0'')"

fun item :: "string \<Rightarrow> row option \<Rightarrow> error + val" where
  "item k None = Inl (TypeError ''NoneType object is not subscriptable'')"
| "item k (Some (TupleRow vs)) = Inl (TypeError ''tuple indices must be integers or slices, not str'')"
| "item k (Some (DictRow kvs)) =
     (case map_of kvs k of None \<Rightarrow> Inl (KeyError k) | Some v \<Rightarrow> Inr v)"

text \<open>
  \<open>get_connection\<close>: check a connection out, set its cursor factory when a dictionary cursor
  is asked for, run the body; on an exception roll back and re-raise; in every case where a
  connection was obtained, give it back to the pool.
\<close>

definition get_connection ::
  "'d env \<Rightarrow> bool \<Rightarrow> (nat \<Rightarrow> ('a, 'd) prog) \<Rightarrow> ('a, 'd) prog" where
  "get_connection E dict_cursor body s =
     (case getconn E s of
        (Inl e, s1) \<Rightarrow> (Inl e, s1)
      | (Inr c, s1) \<Rightarrow>
          (let s2 = (if dict_cursor
                     then s1\<lparr>conns := (conns s1)(c := (conns s1 c)\<lparr>cursor_factory := RealDictCursor\<rparr>)\<rparr>
                     else s1)
           in case body c s2 of
                (Inl e, s3) \<Rightarrow> (Inl e, putconn c (rollback c s3))
              | (Inr x, s3) \<Rightarrow> (Inr x, putconn c s3)))"

text \<open>
  \<open>get_cursor\<close>: inside \<open>get_connection\<close>, switch the connection to autocommit when asked,
  open a cursor of the connection's kind, run the body; commit after a normal exit and roll
  back after an exception, unless autocommit was asked for.
\<close>

definition get_cursor ::
  "'d env \<Rightarrow> bool \<Rightarrow> bool \<Rightarrow> (cursor \<Rightarrow> ('a, 'd) prog) \<Rightarrow> ('a, 'd) prog" where
  "get_cursor E dict_cursor ac body =
     get_connection E dict_cursor (\<lambda>c s.
       (let s1 = (if ac
                  then s\<lparr>conns := (conns s)(c := (conns s c)\<lparr>autocommit := True\<rparr>)\<rparr>
                  else s);
            cur = \<lparr>cur_conn = c, cur_kind = cursor_factory (conns s1 c)\<rparr>
        in case body cur s1 of
             (Inr x, s2) \<Rightarrow> (Inr x, if \<not> ac then commit c s2 else s2)
           | (Inl e, s2) \<Rightarrow> (Inl e, if \<not> ac then rollback c s2 else s2)))"

subsection \<open>The operations of DatabaseManager\<close>

text \<open>
  The constructor: no connection string is an error, and so is a pool that cannot be
  created.
\<close>

definition DatabaseManager :: "'d env \<Rightarrow> string \<Rightarrow> nat \<Rightarrow> nat \<Rightarrow> (unit, 'd) prog" where
  "DatabaseManager E connection_string min_conn max_conn s =
     (if connection_string = [] \<and> (database_url E = None \<or> database_url E = Some [])
      then (Inl (ValueError ''Database connection string not provided. Set DATABASE_URL environment variable.''), s)
      else ThreadedConnectionPool E min_conn max_conn s)"

definition execute_script :: "'d env \<Rightarrow> string \<Rightarrow> bool \<Rightarrow> (unit, 'd) prog" where
  "execute_script E script ac =
     get_cursor E False ac (\<lambda>cur s.
       case execute E cur (Script script) s of
         (Inl e, s1) \<Rightarrow> (Inl e, s1)
       | (Inr r, s1) \<Rightarrow> (Inr (), s1))"

definition test_connection :: "'d env \<Rightarrow> 'd state \<Rightarrow> bool \<times> 'd state" where
  "test_connection E s =
     (case get_cursor E False False (\<lambda>cur s0.
             case execute E cur SelectOne s0 of
               (Inl e, s1) \<Rightarrow> (Inl e, s1)
             | (Inr r, s1) \<Rightarrow>
                 (case item0 (fetchone cur r) of
                    Inl e \<Rightarrow> (Inl e, s1)
                  | Inr v \<Rightarrow> (Inr (v = VInt 1 \<or> v = VBool True), s1))) s of
        (Inl e, s') \<Rightarrow> (False, s')
      | (Inr b, s') \<Rightarrow> (b, s'))"

text \<open>\<open>dict(result)\<close> of a fetched row.\<close>

fun dict_of_row :: "row option \<Rightarrow> (string \<times> val) list" where
  "dict_of_row (Some (DictRow kvs)) = kvs"
| "dict_of_row (Some (TupleRow vs)) = []"
| "dict_of_row None = []"

definition get_database_info :: "'d env \<Rightarrow> 'd state \<Rightarrow> (string \<times> val) list \<times> 'd state" where
  "get_database_info E s =
     (case get_cursor E True False (\<lambda>cur s0.
             case execute E cur DatabaseInfoQuery s0 of
               (Inl e, s1) \<Rightarrow> (Inl e, s1)
             | (Inr r, s1) \<Rightarrow>
                 (case item ''database_name'' (fetchone cur r) of
                    Inl e \<Rightarrow> (Inl e, s1)
                  | Inr v \<Rightarrow> (Inr (dict_of_row (fetchone cur r)), s1))) s of
        (Inl e, s') \<Rightarrow> ([], s')
      | (Inr info, s') \<Rightarrow> (info, s'))"

text \<open>
  The block shared by \<open>table_exists\<close>, \<open>get_row_count\<close> and the function check of
  \<open>verify_deployment\<close>: \<open>with self.get_cursor() as cursor: cursor.execute(q)\<close>, then
  \<open>cursor.fetchone()[0]\<close>.
\<close>

definition fetch_scalar :: "'d env \<Rightarrow> stmt \<Rightarrow> (val, 'd) prog" where
  "fetch_scalar E q =
     get_cursor E False False (\<lambda>cur s0.
       case execute E cur q s0 of
         (Inl e, s1) \<Rightarrow> (Inl e, s1)
       | (Inr r, s1) \<Rightarrow>
           (case item0 (fetchone cur r) of
              Inl e \<Rightarrow> (Inl e, s1)
            | Inr v \<Rightarrow> (Inr v, s1)))"

text \<open>Both catch every exception: \<open>False\<close>, respectively \<open>-1\<close>, is returned instead.\<close>

definition table_exists :: "'d env \<Rightarrow> string \<Rightarrow> string \<Rightarrow> 'd state \<Rightarrow> val \<times> 'd state" where
  "table_exists E table_name schema s =
     (case fetch_scalar E (TableExistsQuery schema table_name) s of
        (Inl e, s') \<Rightarrow> (VBool False, s')
      | (Inr v, s') \<Rightarrow> (v, s'))"

definition get_row_count :: "'d env \<Rightarrow> string \<Rightarrow> string \<Rightarrow> 'd state \<Rightarrow> val \<times> 'd state" where
  "get_row_count E table_name schema s =
     (case fetch_scalar E (RowCountQuery schema table_name) s of
        (Inl e, s') \<Rightarrow> (VInt (- 1), s')
      | (Inr v, s') \<Rightarrow> (v, s'))"

definition close :: "'d state \<Rightarrow> 'd state" where
  "close s = closeall s"

section \<open>deployer/sql_deployer.py\<close>

text \<open>The class constant: the scripts with their folders, in the order of deployment.\<close>

definition DEPLOYMENT_ORDER :: "(string \<times> string) list" where
  "DEPLOYMENT_ORDER =
     [(''DDL'', ''CREATE_company_info_raw.sql''),
      (''DDL'', ''CREATE_unified_company_member.sql''),
      (''DDL'', ''CREATE_new_agents.sql''),
      (''DDL'', ''CREATE_unified_merge_logs.sql''),
      (''DDL'', ''CREATE_new_unified_agents.sql''),
      (''FUNCTIONS'', ''helper_functions.sql''),
      (''FUNCTIONS'', ''run_unified_member_pipeline.SQL''),
      (''FUNCTIONS'', ''run_unified_merge_batch.sql''),
      (''TRIGGERS'', ''TRG_new_unified_agents.sql'')]"

text \<open>
  The path of a script, below the base directory \<open>Supabase_replicate\<close> (the directories
  above it are left out of the rendered path).
\<close>

definition sql_base_path :: string where
  "sql_base_path = ''Supabase_replicate''"

definition sql_path :: "string \<Rightarrow> string \<Rightarrow> string" where
  "sql_path folder filename = sql_base_path @ ''/'' @ folder @ ''/'' @ filename"

text \<open>The constructor starts an empty log and raises when the base directory is missing.\<close>

definition SQLDeployer :: "'d env \<Rightarrow> (unit, 'd) prog" where
  "SQLDeployer E s =
     (let s1 = s\<lparr>deployment_log := []\<rparr> in
      if \<not> sql_base_exists E
      then (Inl (FileNotFoundError (''SQL base path not found: '' @ sql_base_path)), s1)
      else (Inr (), s1))"

definition load_sql_file :: "'d env \<Rightarrow> string \<Rightarrow> string \<Rightarrow> error + string" where
  "load_sql_file E folder filename =
     (case sql_files E folder filename of
        None \<Rightarrow> Inl (FileNotFoundError (''SQL file not found: '' @ sql_path folder filename))
      | Some content \<Rightarrow> Inr content)"

text \<open>
  \<open>_execute_sql_script\<close>: run the script, append its result to the log whether it succeeded
  or failed, and re-raise the exception of a failed script.
\<close>

definition execute_sql_script ::
  "'d env \<Rightarrow> string \<Rightarrow> string \<Rightarrow> bool \<Rightarrow> (script_result, 'd) prog" where
  "execute_sql_script E sql_content script_name ac s =
     (case now E s of
        (start_time, s1) \<Rightarrow>
          (case execute_script E sql_content ac s1 of
             (Inr u, s2) \<Rightarrow>
               (case now E s2 of
                  (end_time, s3) \<Rightarrow>
                    (let result = \<lparr>sr_script = script_name, sr_status = Success,
                                    sr_error = None,
                                    sr_duration_seconds = end_time - start_time,
                                    sr_timestamp = start_time\<rparr>
                     in (Inr result, s3\<lparr>deployment_log := deployment_log s3 @ [result]\<rparr>)))
           | (Inl e, s2) \<Rightarrow>
               (case now E s2 of
                  (end_time, s3) \<Rightarrow>
                    (let result = \<lparr>sr_script = script_name, sr_status = Failed,
                                    sr_error = Some (str e),
                                    sr_duration_seconds = end_time - start_time,
                                    sr_timestamp = start_time\<rparr>
                     in (Inl e, s3\<lparr>deployment_log := deployment_log s3 @ [result]\<rparr>)))))"

text \<open>\<open>str.startswith\<close>, \<open>str.endswith\<close> and the slice \<open>filename[7:-4]\<close>.\<close>

definition startswith :: "string \<Rightarrow> string \<Rightarrow> bool" where
  "startswith s p = (take (length p) s = p)"

definition endswith :: "string \<Rightarrow> string \<Rightarrow> bool" where
  "endswith s p = (length p \<le> length s \<and> drop (length s - length p) s = p)"

definition schema_mapping :: "(string \<times> string) list" where
  "schema_mapping =
     [(''company_info_raw'', ''bronze.company_info_raw''),
      (''unified_company_member'', ''public.unified_company_member''),
      (''new_agents'', ''public.new_agents''),
      (''unified_merge_logs'', ''public.unified_merge_logs''),
      (''new_unified_agents'', ''public.new_unified_agents'')]"

definition extract_table_name :: "string \<Rightarrow> string option" where
  "extract_table_name filename =
     (if startswith filename ''CREATE_'' \<and> endswith filename ''.sql''
      then map_of schema_mapping (drop 7 (take (length filename - 4) filename))
      else None)"

definition drop_sql :: "string \<Rightarrow> string" where
  "drop_sql table_name = ''DROP TABLE IF EXISTS '' @ table_name @ '' CASCADE;'' @ [CHR 0x0A]"

text \<open>
  The content \<open>deploy_ddl\<close> executes for a script: with \<open>force_recreate\<close>, and when the
  filename gives a (non-empty) table name, the drop statement goes in front.
\<close>

definition ddl_content :: "bool \<Rightarrow> string \<Rightarrow> string \<Rightarrow> string" where
  "ddl_content force_recreate filename sql_content =
     (if force_recreate then
        (case extract_table_name filename of
           None \<Rightarrow> sql_content
         | Some table_name \<Rightarrow>
             if table_name \<noteq> [] then drop_sql table_name @ sql_content else sql_content)
      else sql_content)"

text \<open>
  The loop of \<open>deploy_ddl\<close>, \<open>deploy_functions\<close> and \<open>deploy_triggers\<close> over the deployment
  order: the three differ in the folder they select and in what they do to the content
  before executing it. An exception of loading or executing a script leaves the loop.
\<close>

fun deploy_scripts ::
  "'d env \<Rightarrow> string \<Rightarrow> (string \<Rightarrow> string \<Rightarrow> string) \<Rightarrow> (string \<times> string) list \<Rightarrow>
   script_result list \<Rightarrow> (script_result list, 'd) prog" where
  "deploy_scripts E target prepare [] results s = (Inr results, s)"
| "deploy_scripts E target prepare ((folder, filename) # rest) results s =
     (if folder = target then
        (case load_sql_file E folder filename of
           Inl e \<Rightarrow> (Inl e, s)
         | Inr sql_content \<Rightarrow>
             (case execute_sql_script E (prepare filename sql_content)
                     (target @ ''/'' @ filename) True s of
                (Inl e, s1) \<Rightarrow> (Inl e, s1)
              | (Inr result, s1) \<Rightarrow>
                  deploy_scripts E target prepare rest (results @ [result]) s1))
      else deploy_scripts E target prepare rest results s)"

definition deploy_ddl :: "'d env \<Rightarrow> bool \<Rightarrow> (script_result list, 'd) prog" where
  "deploy_ddl E force_recreate =
     deploy_scripts E ''DDL'' (ddl_content force_recreate) DEPLOYMENT_ORDER []"

definition deploy_functions :: "'d env \<Rightarrow> (script_result list, 'd) prog" where
  "deploy_functions E =
     deploy_scripts E ''FUNCTIONS'' (\<lambda>filename sql_content. sql_content) DEPLOYMENT_ORDER []"

definition deploy_triggers :: "'d env \<Rightarrow> (script_result list, 'd) prog" where
  "deploy_triggers E =
     deploy_scripts E ''TRIGGERS'' (\<lambda>filename sql_content. sql_content) DEPLOYMENT_ORDER []"

datatype rls_result = RlsSkipped string | RlsExecuted script_result

definition deploy_rls :: "'d env \<Rightarrow> bool \<Rightarrow> (rls_result, 'd) prog" where
  "deploy_rls E enable s =
     (if \<not> enable then (Inr (RlsSkipped ''disabled''), s)
      else
        (case load_sql_file E ''RLS'' ''RLS_enable_rls.sql'' of
           Inl e \<Rightarrow> (Inl e, s)
         | Inr sql_content \<Rightarrow>
             (case execute_sql_script E sql_content ''RLS/RLS_enable_rls.sql'' True s of
                (Inl e, s1) \<Rightarrow> (Inl e, s1)
              | (Inr result, s1) \<Rightarrow> (Inr (RlsExecuted result), s1))))"

text \<open>The summary \<open>deploy_all\<close> returns; a key the dictionary lacks is \<open>None\<close>.\<close>

record deploy_summary =
  ds_status :: status
  ds_error :: "string option"
  ds_total_duration_seconds :: int
  ds_ddl_count :: "nat option"
  ds_function_count :: "nat option"
  ds_trigger_count :: "nat option"
  ds_rls_enabled :: "bool option"
  ds_deployment_log :: "script_result list"
  ds_timestamp :: int

text \<open>The four steps inside the \<open>try\<close> of \<open>deploy_all\<close>.\<close>

definition deploy_all_steps ::
  "'d env \<Rightarrow> bool \<Rightarrow> bool \<Rightarrow>
   (script_result list \<times> script_result list \<times> script_result list \<times> rls_result, 'd) prog" where
  "deploy_all_steps E force_recreate enable_rls s =
     (case deploy_ddl E force_recreate s of
        (Inl e, s1) \<Rightarrow> (Inl e, s1)
      | (Inr ddl_results, s1) \<Rightarrow>
          (case deploy_functions E s1 of
             (Inl e, s2) \<Rightarrow> (Inl e, s2)
           | (Inr function_results, s2) \<Rightarrow>
               (case deploy_triggers E s2 of
                  (Inl e, s3) \<Rightarrow> (Inl e, s3)
                | (Inr trigger_results, s3) \<Rightarrow>
                    (case deploy_rls E enable_rls s3 of
                       (Inl e, s4) \<Rightarrow> (Inl e, s4)
                     | (Inr rls, s4) \<Rightarrow>
                         (Inr (ddl_results, function_results, trigger_results, rls), s4)))))"

definition deploy_all :: "'d env \<Rightarrow> bool \<Rightarrow> bool \<Rightarrow> 'd state \<Rightarrow> deploy_summary \<times> 'd state" where
  "deploy_all E force_recreate enable_rls s =
     (case now E s of
        (start_time, s0) \<Rightarrow>
          (case deploy_all_steps E force_recreate enable_rls s0 of
             (Inr (ddl_results, function_results, trigger_results, rls), s1) \<Rightarrow>
               (case now E s1 of
                  (end_time, s2) \<Rightarrow>
                    (\<lparr>ds_status = Success, ds_error = None,
                      ds_total_duration_seconds = end_time - start_time,
                      ds_ddl_count = Some (length ddl_results),
                      ds_function_count = Some (length function_results),
                      ds_trigger_count = Some (length trigger_results),
                      ds_rls_enabled = Some enable_rls,
                      ds_deployment_log = deployment_log s2,
                      ds_timestamp = start_time\<rparr>, s2))
           | (Inl e, s1) \<Rightarrow>
               (case now E s1 of
                  (end_time, s2) \<Rightarrow>
                    (\<lparr>ds_status = Failed, ds_error = Some (str e),
                      ds_total_duration_seconds = end_time - start_time,
                      ds_ddl_count = None, ds_function_count = None,
                      ds_trigger_count = None, ds_rls_enabled = None,
                      ds_deployment_log = deployment_log s2,
                      ds_timestamp = start_time\<rparr>, s2))))"

subsection \<open>Verification\<close>

definition expected_tables :: "(string \<times> string) list" where
  "expected_tables =
     [(''bronze'', ''company_info_raw''),
      (''public'', ''unified_company_member''),
      (''public'', ''new_agents''),
      (''public'', ''unified_merge_logs''),
      (''public'', ''new_unified_agents'')]"

definition expected_functions :: "string list" where
  "expected_functions =
     [''array_merge_unique'', ''update_last_updated_column'',
      ''run_unified_member_pipeline'', ''run_unified_merge_batch'']"

text \<open>
  The report: for a table, under the key \<open>schema.table\<close>, whether it exists and its row
  count; for a function whether it exists; and the flag.
\<close>

record verification =
  v_tables :: "string \<rightharpoonup> val \<times> val"
  v_functions :: "string \<rightharpoonup> val"
  all_verified :: bool

fun check_tables ::
  "'d env \<Rightarrow> (string \<times> string) list \<Rightarrow> verification \<Rightarrow> 'd state \<Rightarrow> verification \<times> 'd state" where
  "check_tables E [] v s = (v, s)"
| "check_tables E ((schema, table) # rest) v s =
     (case table_exists E table schema s of
        (exists, s1) \<Rightarrow>
          (case (if truthy exists then get_row_count E table schema s1 else (VInt 0, s1)) of
             (row_count, s2) \<Rightarrow>
               (let v1 = v\<lparr>v_tables := (v_tables v)(schema @ ''.'' @ table \<mapsto> (exists, row_count))\<rparr>;
                    v2 = (if truthy exists then v1 else v1\<lparr>all_verified := False\<rparr>)
                in check_tables E rest v2 s2)))"

fun check_functions ::
  "'d env \<Rightarrow> string list \<Rightarrow> verification \<Rightarrow> 'd state \<Rightarrow> verification \<times> 'd state" where
  "check_functions E [] v s = (v, s)"
| "check_functions E (func_name # rest) v s =
     (case fetch_scalar E (FunctionExistsQuery func_name) s of
        (Inr exists, s1) \<Rightarrow>
          (let v1 = v\<lparr>v_functions := (v_functions v)(func_name \<mapsto> exists)\<rparr>;
               v2 = (if truthy exists then v1 else v1\<lparr>all_verified := False\<rparr>)
           in check_functions E rest v2 s1)
      | (Inl e, s1) \<Rightarrow>
          check_functions E rest
            (v\<lparr>v_functions := (v_functions v)(func_name \<mapsto> VBool False),
               all_verified := False\<rparr>) s1)"

definition verify_deployment :: "'d env \<Rightarrow> 'd state \<Rightarrow> verification \<times> 'd state" where
  "verify_deployment E s =
     (case check_tables E expected_tables
             \<lparr>v_tables = Map.empty, v_functions = Map.empty, all_verified = True\<rparr> s of
        (v, s1) \<Rightarrow> check_functions E expected_functions v s1)"

section \<open>deployer/data_loader.py\<close>

text \<open>The class constant: the CSV files and their tables, in declared order.\<close>

definition CSV_TABLE_MAPPING :: "(string \<times> string \<times> string) list" where
  "CSV_TABLE_MAPPING =
     [(''raw_company_info.csv'', (''public'', ''company_info_raw'')),
      (''new_agents.csv'', (''public'', ''new_agents''))]"

definition csv_base_path :: string where
  "csv_base_path = ''Supabase_replicate/CSVs''"

definition DataLoader :: "'d env \<Rightarrow> (unit, 'd) prog" where
  "DataLoader E s =
     (let s1 = s\<lparr>load_log := []\<rparr> in
      if \<not> csv_base_exists E
      then (Inl (FileNotFoundError (''CSV base path not found: '' @ csv_base_path)), s1)
      else (Inr (), s1))"

definition get_csv_path :: "'d env \<Rightarrow> string \<Rightarrow> error + string" where
  "get_csv_path E csv_filename =
     (case csv_files E csv_filename of
        None \<Rightarrow> Inl (FileNotFoundError (''CSV file not found: '' @ csv_base_path @ ''/'' @ csv_filename))
      | Some f \<Rightarrow> Inr (csv_base_path @ ''/'' @ csv_filename))"

text \<open>
  \<open>_load_csv_with_copy\<close>: inside a cursor, open the file, skip its first line (\<open>next(f)\<close>
  raises \<open>StopIteration\<close> on an empty file), and copy the remaining lines in one
  statement.
\<close>

definition load_csv_with_copy :: "'d env \<Rightarrow> string \<Rightarrow> string \<Rightarrow> string \<Rightarrow> (int, 'd) prog" where
  "load_csv_with_copy E csv_filename schema table =
     get_cursor E False False (\<lambda>cur s.
       case csv_files E csv_filename of
         None \<Rightarrow> (Inl (FileNotFoundError (csv_base_path @ ''/'' @ csv_filename)), s)
       | Some f \<Rightarrow>
           (case csv_lines f of
              [] \<Rightarrow> (Inl StopIteration, s)
            | first_line # remaining \<Rightarrow>
                (case execute E cur (CopyFromStdin schema table remaining) s of
                   (Inl e, s1) \<Rightarrow> (Inl e, s1)
                 | (Inr r, s1) \<Rightarrow> (Inr (rowcount r), s1))))"

text \<open>
  The values \<open>[row.get(col) for col in columns]\<close> of a record read by \<open>csv.DictReader\<close>.
  The reader builds \<open>dict(zip(fieldnames, row))\<close>, where the last of equal column names
  wins, and for a record shorter than the header it then assigns \<open>None\<close> to every name in
  \<open>fieldnames[len(row):]\<close>, also to a name that the record had a value for.
\<close>

definition row_values :: "string list \<Rightarrow> string list \<Rightarrow> val list" where
  "row_values columns r =
     map (\<lambda>col. if col \<in> set (drop (length r) columns) then VNull
                else (case map_of (rev (zip columns r)) col of
                        None \<Rightarrow> VNull
                      | Some x \<Rightarrow> VStr x))
       columns"

fun insert_rows ::
  "'d env \<Rightarrow> cursor \<Rightarrow> string \<Rightarrow> string \<Rightarrow> string list \<Rightarrow> string list list \<Rightarrow> (unit, 'd) prog" where
  "insert_rows E cur schema table columns [] s = (Inr (), s)"
| "insert_rows E cur schema table columns (r # rest) s =
     (case execute E cur
             (InsertOnConflictDoNothing schema table columns (row_values columns r)) s of
        (Inl e, s1) \<Rightarrow> (Inl e, s1)
      | (Inr rep, s1) \<Rightarrow> insert_rows E cur schema table columns rest s1)"

text \<open>\<open>_insert_batch\<close>: one cursor, hence one transaction, for the rows of a batch.\<close>

definition insert_batch ::
  "'d env \<Rightarrow> string \<Rightarrow> string \<Rightarrow> string list \<Rightarrow> string list list \<Rightarrow> (unit, 'd) prog" where
  "insert_batch E schema table columns batch s =
     (if batch = [] then (Inr (), s)
      else get_cursor E False False
             (\<lambda>cur. insert_rows E cur schema table columns batch) s)"

text \<open>
  The loop of \<open>_load_csv_with_insert\<close> over the records: a batch is inserted as soon as it
  holds \<open>batch_size\<close> rows, and what remains after the last record is inserted at the end.
\<close>

fun insert_loop ::
  "'d env \<Rightarrow> string \<Rightarrow> string \<Rightarrow> string list \<Rightarrow> int \<Rightarrow> string list list \<Rightarrow>
   string list list \<Rightarrow> int \<Rightarrow> (int, 'd) prog" where
  "insert_loop E schema table columns batch_size [] batch total_rows s =
     (if batch \<noteq> [] then
        (case insert_batch E schema table columns batch s of
           (Inl e, s1) \<Rightarrow> (Inl e, s1)
         | (Inr u, s1) \<Rightarrow> (Inr (total_rows + int (length batch)), s1))
      else (Inr total_rows, s))"
| "insert_loop E schema table columns batch_size (r # rest) batch total_rows s =
     (if int (length (batch @ [r])) \<ge> batch_size then
        (case insert_batch E schema table columns (batch @ [r]) s of
           (Inl e, s1) \<Rightarrow> (Inl e, s1)
         | (Inr u, s1) \<Rightarrow>
             insert_loop E schema table columns batch_size rest []
               (total_rows + int (length (batch @ [r]))) s1)
      else insert_loop E schema table columns batch_size rest (batch @ [r]) total_rows s)"

text \<open>
  \<open>_load_csv_with_insert\<close>: the header record gives the columns (none is an error); the
  reader skips empty records.
\<close>

definition load_csv_with_insert ::
  "'d env \<Rightarrow> string \<Rightarrow> string \<Rightarrow> string \<Rightarrow> int \<Rightarrow> (int, 'd) prog" where
  "load_csv_with_insert E csv_filename schema table batch_size s =
     (case csv_files E csv_filename of
        None \<Rightarrow> (Inl (FileNotFoundError (csv_base_path @ ''/'' @ csv_filename)), s)
      | Some f \<Rightarrow>
          (case csv_records f of
             [] \<Rightarrow>
               (Inl (ValueError (''No columns found in CSV: '' @ csv_base_path @ ''/'' @ csv_filename)), s)
           | columns # rest \<Rightarrow>
               if columns = [] then
                 (Inl (ValueError (''No columns found in CSV: '' @ csv_base_path @ ''/'' @ csv_filename)), s)
               else insert_loop E schema table columns batch_size
                      (filter (\<lambda>r. r \<noteq> []) rest) [] 0 s))"

text \<open>
  The \<open>try\<close> block of \<open>load_csv\<close>. The fallback call passes no batch size, so the default
  of \<open>_load_csv_with_insert\<close>, 1000, applies.
\<close>

definition load_csv_try ::
  "'d env \<Rightarrow> string \<Rightarrow> bool \<Rightarrow> (string \<times> string \<times> int, 'd) prog" where
  "load_csv_try E csv_filename use_copy s =
     (case map_of CSV_TABLE_MAPPING csv_filename of
        None \<Rightarrow> (Inl (ValueError (''No table mapping found for CSV: '' @ csv_filename)), s)
      | Some (schema, table) \<Rightarrow>
          (case get_csv_path E csv_filename of
             Inl e \<Rightarrow> (Inl e, s)
           | Inr csv_path \<Rightarrow>
               (case table_exists E table schema s of
                  (exists, s1) \<Rightarrow>
                    if \<not> truthy exists then
                      (Inl (ValueError (''Table '' @ schema @ ''.'' @ table @
                              '' does not exist. Run DDL deployment first.'')), s1)
                    else if use_copy then
                      (case load_csv_with_copy E csv_filename schema table s1 of
                         (Inr row_count, s2) \<Rightarrow> (Inr (schema, table, row_count), s2)
                       | (Inl e, s2) \<Rightarrow>
                           (case load_csv_with_insert E csv_filename schema table 1000 s2 of
                              (Inl e2, s3) \<Rightarrow> (Inl e2, s3)
                            | (Inr row_count, s3) \<Rightarrow> (Inr (schema, table, row_count), s3)))
                    else
                      (case load_csv_with_insert E csv_filename schema table 1000 s1 of
                         (Inl e2, s3) \<Rightarrow> (Inl e2, s3)
                       | (Inr row_count, s3) \<Rightarrow> (Inr (schema, table, row_count), s3)))))"

definition load_csv :: "'d env \<Rightarrow> string \<Rightarrow> bool \<Rightarrow> (load_result, 'd) prog" where
  "load_csv E csv_filename use_copy s =
     (case now E s of
        (start_time, s0) \<Rightarrow>
          (case load_csv_try E csv_filename use_copy s0 of
             (Inr (schema, table, row_count), s1) \<Rightarrow>
               (case now E s1 of
                  (end_time, s2) \<Rightarrow>
                    (let result = \<lparr>lr_csv_file = csv_filename,
                                    lr_table = Some (schema @ ''.'' @ table),
                                    lr_status = Success, lr_rows_loaded = Some row_count,
                                    lr_error = None,
                                    lr_duration_seconds = end_time - start_time,
                                    lr_timestamp = start_time\<rparr>
                     in (Inr result, s2\<lparr>load_log := load_log s2 @ [result]\<rparr>)))
           | (Inl e, s1) \<Rightarrow>
               (case now E s1 of
                  (end_time, s2) \<Rightarrow>
                    (let result = \<lparr>lr_csv_file = csv_filename, lr_table = None,
                                    lr_status = Failed, lr_rows_loaded = None,
                                    lr_error = Some (str e),
                                    lr_duration_seconds = end_time - start_time,
                                    lr_timestamp = start_time\<rparr>
                     in (Inl e, s2\<lparr>load_log := load_log s2 @ [result]\<rparr>)))))"

text \<open>
  The loop of \<open>load_all_csvs\<close> over the keys of the mapping: a file that is not there is
  skipped, an exception of \<open>load_csv\<close> leaves the loop.
\<close>

fun load_all_loop ::
  "'d env \<Rightarrow> bool \<Rightarrow> string list \<Rightarrow> load_result list \<Rightarrow> int \<Rightarrow>
   (load_result list \<times> int, 'd) prog" where
  "load_all_loop E use_copy [] results total_rows s = (Inr (results, total_rows), s)"
| "load_all_loop E use_copy (csv_filename # rest) results total_rows s =
     (if csv_files E csv_filename = None
      then load_all_loop E use_copy rest results total_rows s
      else
        (case load_csv E csv_filename use_copy s of
           (Inl e, s1) \<Rightarrow> (Inl e, s1)
         | (Inr result, s1) \<Rightarrow>
             load_all_loop E use_copy rest (results @ [result])
               (total_rows + (case lr_rows_loaded result of None \<Rightarrow> 0 | Some n \<Rightarrow> n)) s1))"

record load_summary =
  ls_status :: status
  ls_error :: "string option"
  ls_total_duration_seconds :: int
  ls_files_loaded :: "nat option"
  ls_total_rows :: "int option"
  ls_load_log :: "load_result list"
  ls_timestamp :: int

definition load_all_csvs :: "'d env \<Rightarrow> bool \<Rightarrow> 'd state \<Rightarrow> load_summary \<times> 'd state" where
  "load_all_csvs E use_copy s =
     (case now E s of
        (start_time, s0) \<Rightarrow>
          (case load_all_loop E use_copy (map fst CSV_TABLE_MAPPING) [] 0 s0 of
             (Inr (results, total_rows), s1) \<Rightarrow>
               (case now E s1 of
                  (end_time, s2) \<Rightarrow>
                    (\<lparr>ls_status = Success, ls_error = None,
                      ls_total_duration_seconds = end_time - start_time,
                      ls_files_loaded = Some (length results),
                      ls_total_rows = Some total_rows,
                      ls_load_log = load_log s2, ls_timestamp = start_time\<rparr>, s2))
           | (Inl e, s1) \<Rightarrow>
               (case now E s1 of
                  (end_time, s2) \<Rightarrow>
                    (\<lparr>ls_status = Failed, ls_error = Some (str e),
                      ls_total_duration_seconds = end_time - start_time,
                      ls_files_loaded = None, ls_total_rows = None,
                      ls_load_log = load_log s2, ls_timestamp = start_time\<rparr>, s2))))"

subsection \<open>The pipeline\<close>

text \<open>
  The block \<open>with self.db_manager.get_cursor() as cursor: cursor.execute("SELECT f()")\<close>,
  which \<open>run_data_pipeline\<close> has once for each of the two procedures.
\<close>

definition call_procedure :: "'d env \<Rightarrow> string \<Rightarrow> (unit, 'd) prog" where
  "call_procedure E name =
     get_cursor E False False (\<lambda>cur s.
       case execute E cur (CallProcedure name) s of
         (Inl e, s1) \<Rightarrow> (Inl e, s1)
       | (Inr r, s1) \<Rightarrow> (Inr (), s1))"

definition member_pipeline :: string where
  "member_pipeline = ''public.run_unified_member_pipeline''"

definition merge_batch :: string where
  "merge_batch = ''public.run_unified_merge_batch''"

text \<open>
  \<open>_get_pipeline_stats\<close>: an empty dictionary after any exception. The conversion to
  \<open>float\<close> of the average is left out.
\<close>

definition get_pipeline_stats :: "'d env \<Rightarrow> 'd state \<Rightarrow> (string \<times> val) list \<times> 'd state" where
  "get_pipeline_stats E s =
     (case get_cursor E True False (\<lambda>cur s0.
             case execute E cur PipelineStatsQuery s0 of
               (Inl e, s1) \<Rightarrow> (Inl e, s1)
             | (Inr r, s1) \<Rightarrow>
                 (case item ''total_count'' (fetchone cur r) of
                    Inl e \<Rightarrow> (Inl e, s1)
                  | Inr total_count \<Rightarrow>
                      (case item ''needs_review_count'' (fetchone cur r) of
                         Inl e \<Rightarrow> (Inl e, s1)
                       | Inr needs_review_count \<Rightarrow>
                           (case item ''avg_confidence'' (fetchone cur r) of
                              Inl e \<Rightarrow> (Inl e, s1)
                            | Inr avg \<Rightarrow>
                                (Inr [(''unified_agents_count'', total_count),
                                      (''needs_review_count'', needs_review_count),
                                      (''avg_confidence'', if truthy avg then avg else VInt 0)],
                                 s1))))) s of
        (Inl e, s') \<Rightarrow> ([], s')
      | (Inr stats, s') \<Rightarrow> (stats, s'))"

record pipeline_summary =
  ps_status :: status
  ps_error :: "string option"
  ps_total_duration_seconds :: int
  ps_csv_load_summary :: "load_summary option"
  ps_statistics :: "(string \<times> val) list option"
  ps_timestamp :: int

text \<open>The \<open>try\<close> block of \<open>run_data_pipeline\<close>.\<close>

definition run_data_pipeline_steps ::
  "'d env \<Rightarrow> (load_summary \<times> (string \<times> val) list, 'd) prog" where
  "run_data_pipeline_steps E s =
     (case load_all_csvs E True s of
        (load_summary, s1) \<Rightarrow>
          if ls_status load_summary \<noteq> Success
          then (Inl (GenericException ''CSV loading failed''), s1)
          else
            (case call_procedure E member_pipeline s1 of
               (Inl e, s2) \<Rightarrow> (Inl e, s2)
             | (Inr u, s2) \<Rightarrow>
                 (case call_procedure E merge_batch s2 of
                    (Inl e, s3) \<Rightarrow> (Inl e, s3)
                  | (Inr u, s3) \<Rightarrow>
                      (case get_pipeline_stats E s3 of
                         (stats, s4) \<Rightarrow> (Inr (load_summary, stats), s4)))))"

definition run_data_pipeline :: "'d env \<Rightarrow> 'd state \<Rightarrow> pipeline_summary \<times> 'd state" where
  "run_data_pipeline E s =
     (case now E s of
        (start_time, s0) \<Rightarrow>
          (case run_data_pipeline_steps E s0 of
             (Inr (load_summary, stats), s1) \<Rightarrow>
               (case now E s1 of
                  (end_time, s2) \<Rightarrow>
                    (\<lparr>ps_status = Success, ps_error = None,
                      ps_total_duration_seconds = end_time - start_time,
                      ps_csv_load_summary = Some load_summary,
                      ps_statistics = Some stats, ps_timestamp = start_time\<rparr>, s2))
           | (Inl e, s1) \<Rightarrow>
               (case now E s1 of
                  (end_time, s2) \<Rightarrow>
                    (\<lparr>ps_status = Failed, ps_error = Some (str e),
                      ps_total_duration_seconds = end_time - start_time,
                      ps_csv_load_summary = None, ps_statistics = None,
                      ps_timestamp = start_time\<rparr>, s2))))"

section \<open>deploy.py\<close>

record configuration =
  force_recreate :: bool
  enable_rls :: bool
  load_data :: bool
  run_pipeline :: bool
  verify :: bool

text \<open>The report; a key the dictionary does not have (yet) is \<open>None\<close>.\<close>

record deployment_report =
  dr_deployment_id :: int
  dr_start_time :: int
  dr_configuration :: configuration
  dr_database_info :: "(string \<times> val) list option"
  dr_sql_deployment :: "deploy_summary option"
  dr_verification :: "verification option"
  dr_data_pipeline :: "pipeline_summary option"
  dr_data_load :: "load_summary option"
  dr_end_time :: "int option"
  dr_total_duration_seconds :: "int option"
  dr_status :: "status option"
  dr_error :: "string option"

text \<open>
  The start of the \<open>try\<close> block, up to the assignment of \<open>db_manager\<close>: the required
  variable is validated, \<open>config.database_url\<close> is read, and the manager is constructed
  with its default pool bounds 1 and 10. (Loading a \<open>.env\<close> file is left out.)
\<close>

definition deploy_database_connect :: "'d env \<Rightarrow> (unit, 'd) prog" where
  "deploy_database_connect E s =
     (case database_url E of
        None \<Rightarrow> (Inl (ValueError ''Missing required environment variables''), s)
      | Some url \<Rightarrow>
          if url = [] then (Inl (ValueError ''Missing required environment variables''), s)
          else DatabaseManager E url 1 10 s)"

text \<open>
  The rest of the \<open>try\<close> block. The report is filled in on the way, so it is returned with
  the exception as well.
\<close>

definition deploy_database_load ::
  "'d env \<Rightarrow> configuration \<Rightarrow> deployment_report \<Rightarrow> 'd state \<Rightarrow>
   (error + unit) \<times> deployment_report \<times> 'd state" where
  "deploy_database_load E cfg report s =
     (if load_data cfg then
        (if run_pipeline cfg then
           (case run_data_pipeline E s of
              (pipeline_result, s1) \<Rightarrow>
                (let report1 = report\<lparr>dr_data_pipeline := Some pipeline_result\<rparr> in
                 if ps_status pipeline_result \<noteq> Success
                 then (Inl (GenericException ''Data pipeline failed''), report1, s1)
                 else (Inr (), report1, s1)))
         else
           (case load_all_csvs E True s of
              (load_result, s1) \<Rightarrow>
                (let report1 = report\<lparr>dr_data_load := Some load_result\<rparr> in
                 if ls_status load_result \<noteq> Success
                 then (Inl (GenericException ''Data loading failed''), report1, s1)
                 else (Inr (), report1, s1))))
      else (Inr (), report, s))"

definition deploy_database_stages ::
  "'d env \<Rightarrow> configuration \<Rightarrow> deployment_report \<Rightarrow> 'd state \<Rightarrow>
   (error + unit) \<times> deployment_report \<times> 'd state" where
  "deploy_database_stages E cfg report s =
     (case test_connection E s of
        (ok, s1) \<Rightarrow>
          if \<not> ok then (Inl (ConnectionError ''Database connection test failed''), report, s1)
          else
            (case get_database_info E s1 of
               (db_info, s2) \<Rightarrow>
                 (let report1 = report\<lparr>dr_database_info := Some db_info\<rparr> in
                  case SQLDeployer E s2 of
                    (Inl e, s3) \<Rightarrow> (Inl e, report1, s3)
                  | (Inr u, s3) \<Rightarrow>
                      (case DataLoader E s3 of
                         (Inl e, s4) \<Rightarrow> (Inl e, report1, s4)
                       | (Inr u, s4) \<Rightarrow>
                           (case deploy_all E (force_recreate cfg) (enable_rls cfg) s4 of
                              (sql_deployment, s5) \<Rightarrow>
                                (let report2 = report1\<lparr>dr_sql_deployment := Some sql_deployment\<rparr> in
                                 if ds_status sql_deployment \<noteq> Success
                                 then (Inl (GenericException ''SQL deployment failed''), report2, s5)
                                 else
                                   (case (if verify cfg
                                          then (case verify_deployment E s5 of
                                                  (verification, s6) \<Rightarrow>
                                                    (report2\<lparr>dr_verification := Some verification\<rparr>, s6))
                                          else (report2, s5)) of
                                      (report3, s6) \<Rightarrow>
                                        deploy_database_load E cfg report3 s6)))))))"

text \<open>The \<open>except\<close> clause: the report is stamped as failed.\<close>

definition deploy_database_failed ::
  "'d env \<Rightarrow> int \<Rightarrow> error \<Rightarrow> deployment_report \<Rightarrow> 'd state \<Rightarrow> deployment_report \<times> 'd state" where
  "deploy_database_failed E start_time e report s =
     (case now E s of
        (end_time, s1) \<Rightarrow>
          (report\<lparr>dr_end_time := Some end_time,
                  dr_total_duration_seconds := Some (end_time - start_time),
                  dr_status := Some Failed,
                  dr_error := Some (str e)\<rparr>, s1))"

text \<open>
  \<open>deploy_database\<close>. The \<open>finally\<close> clause closes the pool when \<open>db_manager\<close> is among the
  local variables, that is, when the constructor of the manager has returned.
\<close>

definition deploy_database ::
  "'d env \<Rightarrow> configuration \<Rightarrow> 'd state \<Rightarrow> deployment_report \<times> 'd state" where
  "deploy_database E cfg s =
     (case now E s of
        (start_time, s0) \<Rightarrow>
          (let report = \<lparr>dr_deployment_id = start_time, dr_start_time = start_time,
                          dr_configuration = cfg, dr_database_info = None,
                          dr_sql_deployment = None, dr_verification = None,
                          dr_data_pipeline = None, dr_data_load = None,
                          dr_end_time = None, dr_total_duration_seconds = None,
                          dr_status = None, dr_error = None\<rparr>
           in case deploy_database_connect E s0 of
                (Inl e, s1) \<Rightarrow> deploy_database_failed E start_time e report s1
              | (Inr u, s1) \<Rightarrow>
                  (case deploy_database_stages E cfg report s1 of
                     (Inl e, report1, s2) \<Rightarrow>
                       (case deploy_database_failed E start_time e report1 s2 of
                          (report2, s3) \<Rightarrow> (report2, close s3))
                   | (Inr u1, report1, s2) \<Rightarrow>
                       (case now E s2 of
                          (end_time, s3) \<Rightarrow>
                            (report1\<lparr>dr_end_time := Some end_time,
                                     dr_total_duration_seconds := Some (end_time - start_time),
                                     dr_status := Some Success\<rparr>, close s3)))))"

section \<open>Notions used to state the properties\<close>

definition client_eq :: "'d state \<Rightarrow> 'd state \<Rightarrow> bool" where
  "client_eq s s' \<longleftrightarrow>
     calls s' = calls s \<and> ticks s' = ticks s \<and>
     deployment_log s' = deployment_log s \<and> load_log s' = load_log s"

fun planned_scripts ::
  "'d env \<Rightarrow> string \<Rightarrow> (string \<Rightarrow> string \<Rightarrow> string) \<Rightarrow> (string \<times> string) list \<Rightarrow> stmt list" where
  "planned_scripts E target prepare [] = []"
| "planned_scripts E target prepare ((folder, filename) # rest) =
     (if folder = target
      then (case sql_files E folder filename of
              None \<Rightarrow> []
            | Some c \<Rightarrow> [Script (prepare filename c)])
      else []) @ planned_scripts E target prepare rest"

fun script_names :: "string \<Rightarrow> (string \<times> string) list \<Rightarrow> string list" where
  "script_names target [] = []"
| "script_names target ((folder, filename) # rest) =
     (if folder = target then [target @ ''/'' @ filename] else []) @ script_names target rest"

definition all_success :: "script_result list \<Rightarrow> bool" where
  "all_success rs = list_all (\<lambda>x. sr_status x = Success) rs"

definition runs :: "stmt list \<Rightarrow> string list \<Rightarrow> 'd state \<Rightarrow> bool \<Rightarrow> 'd state \<Rightarrow> script_result list \<Rightarrow> bool" where
  "runs plan names s ok s' new \<longleftrightarrow>
     deployment_log s' = deployment_log s @ new \<and> load_log s' = load_log s
     \<and> (\<exists>j. map sr_script new = take j names)
     \<and> all_success (butlast new)
     \<and> (\<exists>k. calls s' = calls s @ take k plan)
     \<and> (ok \<longrightarrow> all_success new \<and> map sr_script new = names \<and> calls s' = calls s @ plan)"

definition rls_plan :: "'d env \<Rightarrow> bool \<Rightarrow> stmt list" where
  "rls_plan E enable =
     (if enable then (case sql_files E ''RLS'' ''RLS_enable_rls.sql'' of
                        None \<Rightarrow> [] | Some c \<Rightarrow> [Script c])
      else [])"

definition deploy_plan :: "'d env \<Rightarrow> bool \<Rightarrow> bool \<Rightarrow> stmt list" where
  "deploy_plan E force enable =
     planned_scripts E ''DDL'' (ddl_content force) DEPLOYMENT_ORDER
     @ planned_scripts E ''FUNCTIONS'' (\<lambda>filename sql_content. sql_content) DEPLOYMENT_ORDER
     @ planned_scripts E ''TRIGGERS'' (\<lambda>filename sql_content. sql_content) DEPLOYMENT_ORDER
     @ rls_plan E enable"

definition deploy_names :: "bool \<Rightarrow> string list" where
  "deploy_names enable =
     script_names ''DDL'' DEPLOYMENT_ORDER @ script_names ''FUNCTIONS'' DEPLOYMENT_ORDER
     @ script_names ''TRIGGERS'' DEPLOYMENT_ORDER
     @ (if enable then [''RLS/RLS_enable_rls.sql''] else [])"

subsection \<open>A concrete server, file tree and state\<close>

text \<open>
  A server whose database is a counter of the statements that changed it. It rejects the
  statements of the list it is given and answers every other one with a single row that
  fits the statement.
\<close>

fun is_query :: "stmt \<Rightarrow> bool" where
  "is_query SelectOne = True"
| "is_query DatabaseInfoQuery = True"
| "is_query (TableExistsQuery schema table) = True"
| "is_query (RowCountQuery schema table) = True"
| "is_query (FunctionExistsQuery name) = True"
| "is_query PipelineStatsQuery = True"
| "is_query (Script text) = False"
| "is_query (CopyFromStdin schema table lines) = False"
| "is_query (InsertOnConflictDoNothing schema table columns vals) = False"
| "is_query (CallProcedure name) = False"

fun demo_row :: "stmt \<Rightarrow> nat \<Rightarrow> (string \<times> val) list" where
  "demo_row SelectOne d = [(''?column?'', VInt 1)]"
| "demo_row DatabaseInfoQuery d = [(''database_name'', VStr ''demo'')]"
| "demo_row (TableExistsQuery schema table) d = [(''exists'', VBool True)]"
| "demo_row (RowCountQuery schema table) d = [(''count'', VInt (int d))]"
| "demo_row (FunctionExistsQuery name) d = [(''exists'', VBool True)]"
| "demo_row PipelineStatsQuery d =
     [(''total_count'', VInt 3), (''needs_review_count'', VInt 1), (''avg_confidence'', VInt 1)]"
| "demo_row (Script text) d = []"
| "demo_row (CopyFromStdin schema table lines) d = []"
| "demo_row (InsertOnConflictDoNothing schema table columns vals) d = []"
| "demo_row (CallProcedure name) d = [(''result'', VNull)]"

definition demo_server :: "stmt list \<Rightarrow> stmt \<Rightarrow> nat \<Rightarrow> (error + reply) \<times> nat" where
  "demo_server rejected q d =
     (if q \<in> set rejected then (Inl (DatabaseError ''statement rejected''), d)
      else (Inr \<lparr>rows = [demo_row q d],
                 rowcount = (case q of CopyFromStdin schema table lines \<Rightarrow> int (length lines)
                             | _ \<Rightarrow> 1)\<rparr>,
            if is_query q then d else Suc d))"

definition demo_sql_files :: "string \<Rightarrow> string \<Rightarrow> string option" where
  "demo_sql_files folder filename =
     (if (folder, filename) \<in> set DEPLOYMENT_ORDER
         \<or> (folder, filename) = (''RLS'', ''RLS_enable_rls.sql'')
         \<or> (folder, filename) = (''DDL'', ''CREATE_audit_trail.sql'')
      then Some (''-- '' @ filename) else None)"

definition demo_csv_files :: "string \<Rightarrow> csv_file option" where
  "demo_csv_files filename =
     (if filename = ''new_agents.csv''
      then Some \<lparr>csv_lines = [''id,name'', ''1,a'', ''2,b'', ''3,c''],
                 csv_records = [[''id'', ''name''], [''1'', ''a''], [''2'', ''b''], [''3'', ''c'']]\<rparr>
      else None)"

definition demo_env :: "stmt list \<Rightarrow> nat env" where
  "demo_env rejected =
     \<lparr>database_url = Some ''postgresql://demo'', batch_size_var = None, can_connect = True,
      server = demo_server rejected, clock = (\<lambda>n. int n),
      sql_base_exists = True, sql_files = demo_sql_files,
      csv_base_exists = True, csv_files = demo_csv_files\<rparr>"

text \<open>A state as the constructor of the manager leaves it: one idle connection.\<close>

definition demo_state :: "nat state" where
  "demo_state =
     \<lparr>pool = \<lparr>minconn = 1, maxconn = 10, idle = [0], used = 0, opened = 1, closed = False\<rparr>,
      conns = (\<lambda>c. new_conn), database = 0, calls = [], ticks = 0,
      deployment_log = [], load_log = []\<rparr>"

subsection \<open>What the loader sends\<close>

text \<open>
  \<open>sends s s' xs\<close>: from \<open>s\<close> to \<open>s'\<close> exactly the statements \<open>xs\<close> were sent, and neither
  the clock nor a log was touched.
\<close>

definition sends :: "'d state \<Rightarrow> 'd state \<Rightarrow> stmt list \<Rightarrow> bool" where
  "sends s s' xs \<longleftrightarrow>
     calls s' = calls s @ xs \<and> ticks s' = ticks s \<and>
     deployment_log s' = deployment_log s \<and> load_log s' = load_log s"

definition copy_plan :: "'d env \<Rightarrow> string \<Rightarrow> string \<Rightarrow> string \<Rightarrow> stmt list" where
  "copy_plan E csv_filename schema table =
     (case csv_files E csv_filename of
        None \<Rightarrow> []
      | Some f \<Rightarrow>
          (case csv_lines f of
             [] \<Rightarrow> []
           | first_line # remaining \<Rightarrow> [CopyFromStdin schema table remaining]))"

definition insert_stmt :: "string \<Rightarrow> string \<Rightarrow> string list \<Rightarrow> string list \<Rightarrow> stmt" where
  "insert_stmt schema table columns r =
     InsertOnConflictDoNothing schema table columns (row_values columns r)"

definition insert_plan :: "'d env \<Rightarrow> string \<Rightarrow> string \<Rightarrow> string \<Rightarrow> stmt list" where
  "insert_plan E csv_filename schema table =
     (case csv_files E csv_filename of
        None \<Rightarrow> []
      | Some f \<Rightarrow>
          (case csv_records f of
             [] \<Rightarrow> []
           | columns # rest \<Rightarrow>
               if columns = [] then []
               else map (insert_stmt schema table columns) (filter (\<lambda>r. r \<noteq> []) rest)))"

definition load_plan :: "'d env \<Rightarrow> string \<Rightarrow> bool \<Rightarrow> stmt list" where
  "load_plan E csv_filename use_copy =
     (case map_of CSV_TABLE_MAPPING csv_filename of
        None \<Rightarrow> []
      | Some (schema, table) \<Rightarrow>
          [TableExistsQuery schema table]
          @ (if use_copy then copy_plan E csv_filename schema table else [])
          @ insert_plan E csv_filename schema table)"



fun loader_stmt :: "stmt \<Rightarrow> bool" where
  "loader_stmt (TableExistsQuery schema table) = True"
| "loader_stmt (CopyFromStdin schema table lines) = True"
| "loader_stmt (InsertOnConflictDoNothing schema table columns vals) = True"
| "loader_stmt (Script text) = False"
| "loader_stmt SelectOne = False"
| "loader_stmt DatabaseInfoQuery = False"
| "loader_stmt (RowCountQuery schema table) = False"
| "loader_stmt (FunctionExistsQuery name) = False"
| "loader_stmt (CallProcedure name) = False"
| "loader_stmt PipelineStatsQuery = False"

text \<open>
  \<open>prefix_run plan complete xs\<close>: the statements \<open>xs\<close> are a prefix of the plan, and the
  whole of it when the run completed.
\<close>

definition prefix_run :: "stmt list \<Rightarrow> bool \<Rightarrow> stmt list \<Rightarrow> bool" where
  "prefix_run plan complete xs \<longleftrightarrow> (\<exists>k. xs = take k plan) \<and> (complete \<longrightarrow> xs = plan)"

definition present :: "'d env \<Rightarrow> string list \<Rightarrow> string list" where
  "present E keys = filter (\<lambda>k. csv_files E k \<noteq> None) keys"

definition loaded :: "load_result list \<Rightarrow> bool" where
  "loaded rs = list_all (\<lambda>x. lr_status x = Success) rs"

definition all_csv_files :: "string \<Rightarrow> csv_file option" where
  "all_csv_files filename = Some \<lparr>csv_lines = [''id'', ''7''], csv_records = [[''id''], [''7'']]\<rparr>"

definition pool_ready :: "'d state \<Rightarrow> bool" where
  "pool_ready s \<longleftrightarrow>
     \<not> closed (pool s) \<and> idle (pool s) \<noteq> [] \<and> length (idle (pool s)) \<le> minconn (pool s)"

definition keeps_connections :: "(cursor \<Rightarrow> ('a, 'd) prog) \<Rightarrow> bool" where
  "keeps_connections body \<longleftrightarrow>
     (\<forall>cur s0 c. pool (snd (body cur s0)) = pool s0
        \<and> autocommit (conns (snd (body cur s0)) c) = autocommit (conns s0 c)
        \<and> cursor_factory (conns (snd (body cur s0)) c) = cursor_factory (conns s0 c))"

definition connection_flags :: "cursor \<Rightarrow> (bool \<times> cursor_kind, 'd) prog" where
  "connection_flags cur s = (Inr (autocommit (conns s (cur_conn cur)), cur_kind cur), s)"





section \<open>Properties\<close>

lemma client_eq_refl: "client_eq s s"
  by (simp add: client_eq_def)

lemma client_eq_trans: "client_eq s s1 \<Longrightarrow> client_eq s1 s2 \<Longrightarrow> client_eq s s2"
  by (simp add: client_eq_def)

lemma getconn_client_eq: "client_eq s (snd (getconn E s))"
  by (simp add: client_eq_def getconn_def connect_def Let_def split: prod.splits sum.splits)

lemma putconn_client_eq: "client_eq s (putconn c s)"
  by (simp add: client_eq_def putconn_def Let_def)

lemma commit_client_eq: "client_eq s (commit c s)"
  by (simp add: client_eq_def commit_def)

lemma rollback_client_eq: "client_eq s (rollback c s)"
  by (simp add: client_eq_def rollback_def split: option.splits)

lemma get_cursor_cases [consumes 1, case_names no_connection body]:
  assumes run: "get_cursor E dc ac body s = (r, s')"
  obtains e where "r = Inl e" and "client_eq s s'"
  | cur s0 s1 where "client_eq s s0" and "body cur s0 = (r, s1)" and "client_eq s1 s'"
proof (cases "getconn E s")
  case (Pair g s1)
  show thesis
  proof (cases g)
    case (Inl e)
    with Pair run getconn_client_eq[of s E] that(1)[of e] show thesis
      by (simp add: get_cursor_def get_connection_def)
  next
    case (Inr c)
    define s2 where "s2 = (if dc then s1\<lparr>conns := (conns s1)(c := (conns s1 c)\<lparr>cursor_factory := RealDictCursor\<rparr>)\<rparr> else s1)"
    define s3 where "s3 = (if ac then s2\<lparr>conns := (conns s2)(c := (conns s2 c)\<lparr>autocommit := True\<rparr>)\<rparr> else s2)"
    define cur where "cur = \<lparr>cur_conn = c, cur_kind = cursor_factory (conns s3 c)\<rparr>"
    have c3: "client_eq s s3"
      using Pair getconn_client_eq[of s E] by (simp add: s3_def s2_def client_eq_def)
    obtain rb sb where b: "body cur s3 = (rb, sb)" by (cases "body cur s3")
    have eq: "get_cursor E dc ac body s =
        (case body cur s3 of
           (Inr x, t) \<Rightarrow> (Inr x, putconn c (if \<not> ac then commit c t else t))
         | (Inl e, t) \<Rightarrow> (Inl e, putconn c (rollback c (if \<not> ac then rollback c t else t))))"
      using Pair Inr
      by (simp add: get_cursor_def get_connection_def Let_def s3_def s2_def cur_def
            split: prod.splits sum.splits)
    have fin: "r = rb \<and> client_eq sb s'"
      using run b unfolding eq
      by (cases rb)
         (auto simp: client_eq_def putconn_def commit_def rollback_def Let_def split: option.splits)
    with that(2)[of s3 cur sb] c3 b show thesis by simp
  qed
qed

lemma execute_client:
  "execute E cur q s = (r, s') \<Longrightarrow>
     calls s' = calls s @ [q] \<and> ticks s' = ticks s \<and>
     deployment_log s' = deployment_log s \<and> load_log s' = load_log s"
  by (auto simp: execute_def Let_def begin_txn_def split: prod.splits)

lemma execute_script_effect:
  assumes "execute_script E c ac s = (r, s')"
  shows "ticks s' = ticks s \<and> deployment_log s' = deployment_log s \<and> load_log s' = load_log s
         \<and> (calls s' = calls s @ [Script c] \<or> (calls s' = calls s \<and> isl r))"
  using assms unfolding execute_script_def
proof (cases rule: get_cursor_cases)
  case (no_connection e)
  then show ?thesis by (simp add: client_eq_def)
next
  case (body cur s0 s1)
  then show ?thesis
    by (auto simp: client_eq_def split: prod.splits sum.splits dest!: execute_client)
qed

lemma execute_sql_script_effect:
  assumes "execute_sql_script E c name ac s = (r, s')"
  shows "\<exists>entry. deployment_log s' = deployment_log s @ [entry] \<and> sr_script entry = name
           \<and> load_log s' = load_log s
           \<and> (case r of
                 Inr res \<Rightarrow> res = entry \<and> sr_status entry = Success
                            \<and> calls s' = calls s @ [Script c]
               | Inl e \<Rightarrow> sr_status entry = Failed \<and> sr_error entry = Some (str e)
                            \<and> (calls s' = calls s \<or> calls s' = calls s @ [Script c]))"
proof -
  obtain r1 s1 where x: "execute_script E c ac (snd (now E s)) = (r1, s1)"
    by (cases "execute_script E c ac (snd (now E s))")
  from execute_script_effect[OF x] assms x show ?thesis
    by (cases r1) (auto simp: execute_sql_script_def now_def Let_def split: prod.splits)
qed

lemma take_Suc_single: "\<exists>k. xs @ [x] @ take j ys = xs @ take k (x # ys)"
  by (rule exI[of _ "Suc j"]) simp

lemma deploy_scripts_calls:
  "deploy_scripts E target prepare order results s = (r, s') \<Longrightarrow>
     (\<exists>k. calls s' = calls s @ take k (planned_scripts E target prepare order))
     \<and> (\<forall>rs. r = Inr rs \<longrightarrow> calls s' = calls s @ planned_scripts E target prepare order)"
proof (induction order arbitrary: results s)
  case Nil
  then show ?case by simp
next
  case (Cons a order)
  obtain folder filename where a: "a = (folder, filename)" by (cases a)
  show ?case
  proof (cases "folder = target")
    case False
    with Cons a show ?thesis by simp
  next
    case True
    show ?thesis
    proof (cases "sql_files E folder filename")
      case None
      with Cons.prems a True show ?thesis
        by (auto simp: load_sql_file_def intro: exI[of _ 0])
    next
      case (Some c)
      obtain r1 s1 where x: "execute_sql_script E (prepare filename c) (target @ ''/'' @ filename) True s = (r1, s1)"
        by (cases "execute_sql_script E (prepare filename c) (target @ ''/'' @ filename) True s")
      show ?thesis
      proof (cases r1)
        case (Inl e)
        with execute_sql_script_effect[OF x]
        have "calls s1 = calls s \<or> calls s1 = calls s @ [Script (prepare filename c)]" by auto
        moreover have "r = Inl e" "s' = s1"
          using Cons.prems a True Some x Inl by (auto simp: load_sql_file_def)
        ultimately show ?thesis
          using a True Some
          by (auto intro: exI[of _ 0] exI[of _ "Suc 0"])
      next
        case (Inr res)
        with execute_sql_script_effect[OF x]
        have c1: "calls s1 = calls s @ [Script (prepare filename c)]" by auto
        have rec: "deploy_scripts E target prepare order (results @ [res]) s1 = (r, s')"
          using Cons.prems a True Some x Inr by (auto simp: load_sql_file_def)
        from Cons.IH[OF rec] obtain k where
          k: "calls s' = calls s1 @ take k (planned_scripts E target prepare order)"
          and full: "\<forall>rs. r = Inr rs \<longrightarrow> calls s' = calls s1 @ planned_scripts E target prepare order"
          by blast
        have "calls s' = calls s @ take (Suc k) (planned_scripts E target prepare (a # order))"
          using k c1 a True Some by simp
        then have A: "\<exists>k'. calls s' = calls s @ take k' (planned_scripts E target prepare (a # order))"
          by (rule exI)
        have B: "\<forall>rs. r = Inr rs \<longrightarrow> calls s' = calls s @ planned_scripts E target prepare (a # order)"
          using full c1 a True Some by simp
        show ?thesis using A B by (rule conjI)
      qed
    qed
  qed
qed

lemma deploy_scripts_log:
  "deploy_scripts E target prepare order results s = (r, s') \<Longrightarrow>
     \<exists>new. deployment_log s' = deployment_log s @ new \<and> load_log s' = load_log s
       \<and> (\<exists>j. map sr_script new = take j (script_names target order))
       \<and> list_all (\<lambda>x. sr_status x = Success) (butlast new)
       \<and> (\<forall>rs. r = Inr rs \<longrightarrow> rs = results @ new
              \<and> list_all (\<lambda>x. sr_status x = Success) new
              \<and> map sr_script new = script_names target order)"
proof (induction order arbitrary: results s)
  case Nil
  then show ?case by (auto intro!: exI[of _ "[]"])
next
  case (Cons a order)
  obtain folder filename where a: "a = (folder, filename)" by (cases a)
  show ?case
  proof (cases "folder = target")
    case False
    with Cons a show ?thesis by simp
  next
    case True
    show ?thesis
    proof (cases "sql_files E folder filename")
      case None
      with Cons.prems a True have "r = Inl (FileNotFoundError (''SQL file not found: '' @ sql_path folder filename))" "s' = s"
        by (auto simp: load_sql_file_def)
      then show ?thesis by (auto intro!: exI[of _ "[]"] exI[of _ 0])
    next
      case (Some c)
      obtain r1 s1 where x: "execute_sql_script E (prepare filename c) (target @ ''/'' @ filename) True s = (r1, s1)"
        by (cases "execute_sql_script E (prepare filename c) (target @ ''/'' @ filename) True s")
      from execute_sql_script_effect[OF x] obtain entry where
        e: "deployment_log s1 = deployment_log s @ [entry]" "sr_script entry = target @ ''/'' @ filename"
           "load_log s1 = load_log s"
           "case r1 of Inr res \<Rightarrow> res = entry \<and> sr_status entry = Success | Inl e \<Rightarrow> sr_status entry = Failed"
        by (cases r1; auto)
      show ?thesis
      proof (cases r1)
        case (Inl err)
        have "r = Inl err" "s' = s1"
          using Cons.prems a True Some x Inl by (auto simp: load_sql_file_def)
        with e a True show ?thesis
          by (auto intro!: exI[of _ "[entry]"] exI[of _ "Suc 0"])
      next
        case (Inr res)
        have rec: "deploy_scripts E target prepare order (results @ [res]) s1 = (r, s')"
          using Cons.prems a True Some x Inr by (auto simp: load_sql_file_def)
        from Cons.IH[OF rec] obtain new j where
          n: "deployment_log s' = deployment_log s1 @ new" "load_log s' = load_log s1"
             "map sr_script new = take j (script_names target order)"
             "list_all (\<lambda>x. sr_status x = Success) (butlast new)"
             "\<forall>rs. r = Inr rs \<longrightarrow> rs = (results @ [res]) @ new
                \<and> list_all (\<lambda>x. sr_status x = Success) new
                \<and> map sr_script new = script_names target order"
          by blast
        have res: "res = entry" "sr_status entry = Success" using e Inr by auto
        have 1: "deployment_log s' = deployment_log s @ (entry # new)" using n e by simp
        have 2: "map sr_script (entry # new) = take (Suc j) (script_names target (a # order))"
          using n e a True by simp
        have 3: "list_all (\<lambda>x. sr_status x = Success) (butlast (entry # new))"
          using n res by simp
        have 4: "\<forall>rs. r = Inr rs \<longrightarrow> rs = results @ (entry # new)
                \<and> list_all (\<lambda>x. sr_status x = Success) (entry # new)
                \<and> map sr_script (entry # new) = script_names target (a # order)"
          using n res e a True by simp
        show ?thesis
          using 1 2 3 4 n(2) e(3) by (intro exI[of _ "entry # new"]) auto
      qed
    qed
  qed
qed

lemma take_prefix_append: "\<exists>k'. take k xs = take k' (xs @ ys)"
  by (rule exI[of _ "min k (length xs)"]) (simp add: min_def)

lemma append_take_append: "\<exists>k'. xs @ take k ys = take k' (xs @ ys)"
  by (rule exI[of _ "length xs + k"]) simp

lemma runs_seq:
  assumes 1: "runs p1 n1 s True s1 new1" and 2: "runs p2 n2 s1 ok s2 new2"
  shows "runs (p1 @ p2) (n1 @ n2) s ok s2 (new1 @ new2)"
proof -
  from 1 have a: "deployment_log s1 = deployment_log s @ new1" "load_log s1 = load_log s"
    "all_success new1" "map sr_script new1 = n1" "calls s1 = calls s @ p1"
    by (simp_all add: runs_def)
  from 2 have b0: "deployment_log s2 = deployment_log s1 @ new2" "load_log s2 = load_log s1"
    "all_success (butlast new2)"
    "ok \<longrightarrow> all_success new2 \<and> map sr_script new2 = n2 \<and> calls s2 = calls s1 @ p2"
    "\<exists>j. map sr_script new2 = take j n2" "\<exists>k. calls s2 = calls s1 @ take k p2"
    by (simp_all add: runs_def)
  then obtain j k where b1: "map sr_script new2 = take j n2" "calls s2 = calls s1 @ take k p2"
    by blast
  note b = b0(1-4) b1
  have n: "\<exists>j'. map sr_script (new1 @ new2) = take j' (n1 @ n2)"
    using a b append_take_append[of n1 j n2] by simp
  have c: "\<exists>k'. calls s2 = calls s @ take k' (p1 @ p2)"
    using a b append_take_append[of p1 k p2] by simp
  have bl: "all_success (butlast (new1 @ new2))"
    using a b by (cases "new2 = []") (auto simp: all_success_def butlast_append list_all_iff dest: in_set_butlastD)
  show ?thesis
    unfolding runs_def using a b n c bl by (auto simp: all_success_def)
qed

lemma runs_abort:
  assumes 1: "runs p1 n1 s False s1 new1"
  shows "runs (p1 @ p2) (n1 @ n2) s False s1 new1"
proof -
  from 1 have a0: "deployment_log s1 = deployment_log s @ new1" "load_log s1 = load_log s"
    "all_success (butlast new1)"
    "\<exists>j. map sr_script new1 = take j n1" "\<exists>k. calls s1 = calls s @ take k p1"
    by (simp_all add: runs_def)
  then obtain j k where a1: "map sr_script new1 = take j n1" "calls s1 = calls s @ take k p1"
    by blast
  note a = a0(1-3) a1
  have n: "\<exists>j'. map sr_script new1 = take j' (n1 @ n2)"
    using a take_prefix_append[of j n1 n2] by simp
  have c: "\<exists>k'. calls s1 = calls s @ take k' (p1 @ p2)"
    using a take_prefix_append[of k p1 p2] by simp
  show ?thesis unfolding runs_def using a n c by simp
qed

lemma deploy_scripts_runs:
  assumes "deploy_scripts E target prepare order results s = (r, s')"
  shows "\<exists>new. runs (planned_scripts E target prepare order) (script_names target order) s (\<not> isl r) s' new
           \<and> (\<forall>rs. r = Inr rs \<longrightarrow> rs = results @ new)"
proof -
  from deploy_scripts_log[OF assms] obtain new where
    n: "deployment_log s' = deployment_log s @ new" "load_log s' = load_log s"
       "\<exists>j. map sr_script new = take j (script_names target order)"
       "list_all (\<lambda>x. sr_status x = Success) (butlast new)"
       "\<forall>rs. r = Inr rs \<longrightarrow> rs = results @ new
              \<and> list_all (\<lambda>x. sr_status x = Success) new
              \<and> map sr_script new = script_names target order"
    by blast
  from deploy_scripts_calls[OF assms] have
    c: "\<exists>k. calls s' = calls s @ take k (planned_scripts E target prepare order)"
       "\<forall>rs. r = Inr rs \<longrightarrow> calls s' = calls s @ planned_scripts E target prepare order"
    by blast+
  have "runs (planned_scripts E target prepare order) (script_names target order) s (\<not> isl r) s' new"
    unfolding runs_def all_success_def using n c by (cases r) simp_all
  with n(5) show ?thesis by blast
qed

lemma runs_nothing: "runs [] [] s ok s []"
  by (simp add: runs_def all_success_def)

lemma deploy_rls_runs:
  assumes "deploy_rls E enable s = (r, s')"
  shows "\<exists>new. runs (rls_plan E enable) (if enable then [''RLS/RLS_enable_rls.sql''] else []) s (\<not> isl r) s' new"
proof (cases enable)
  case False
  with assms show ?thesis
    by (auto simp: deploy_rls_def rls_plan_def intro!: exI[of _ "[]"] runs_nothing)
next
  case True
  show ?thesis
  proof (cases "sql_files E ''RLS'' ''RLS_enable_rls.sql''")
    case None
    with assms True have "s' = s" "isl r"
      by (auto simp: deploy_rls_def load_sql_file_def)
    with True None show ?thesis
      by (auto simp: rls_plan_def runs_def all_success_def intro!: exI[of _ "[]"] exI[of _ 0])
  next
    case (Some c)
    obtain r1 s1 where x: "execute_sql_script E c ''RLS/RLS_enable_rls.sql'' True s = (r1, s1)"
      by (cases "execute_sql_script E c ''RLS/RLS_enable_rls.sql'' True s")
    from execute_sql_script_effect[OF x] obtain entry where
      e: "deployment_log s1 = deployment_log s @ [entry]"
         "sr_script entry = ''RLS/RLS_enable_rls.sql''" "load_log s1 = load_log s"
         "case r1 of Inr res \<Rightarrow> sr_status entry = Success \<and> calls s1 = calls s @ [Script c]
                    | Inl e \<Rightarrow> calls s1 = calls s \<or> calls s1 = calls s @ [Script c]"
      by (cases r1; auto)
    have rs: "s' = s1" "isl r = isl r1"
      using assms True Some x by (auto simp: deploy_rls_def load_sql_file_def split: sum.splits)
    have k: "\<exists>k. calls s1 = calls s @ take k [Script c]"
      using e(4) by (cases r1) (auto intro: exI[of _ 0] exI[of _ "Suc 0"])
    have j: "\<exists>j. map sr_script [entry] = take j [''RLS/RLS_enable_rls.sql'']"
      using e(2) by (auto intro: exI[of _ "Suc 0"])
    have "runs [Script c] [''RLS/RLS_enable_rls.sql''] s (\<not> isl r) s' [entry]"
      unfolding runs_def all_success_def using e rs k j by (cases r1) simp_all
    with True Some show ?thesis by (auto simp: rls_plan_def)
  qed
qed

lemma length_names [simp]:
  "length (script_names ''DDL'' DEPLOYMENT_ORDER) = 5"
  "length (script_names ''FUNCTIONS'' DEPLOYMENT_ORDER) = 3"
  "length (script_names ''TRIGGERS'' DEPLOYMENT_ORDER) = 1"
  by (simp_all add: DEPLOYMENT_ORDER_def)

lemma deploy_all_steps_runs:
  assumes "deploy_all_steps E force enable s = (r, s')"
  shows "\<exists>new. runs (deploy_plan E force enable) (deploy_names enable) s (\<not> isl r) s' new
           \<and> (\<forall>d f t x. r = Inr (d, f, t, x) \<longrightarrow> length d = 5 \<and> length f = 3 \<and> length t = 1)"
proof -
  let ?P1 = "planned_scripts E ''DDL'' (ddl_content force) DEPLOYMENT_ORDER"
  let ?P2 = "planned_scripts E ''FUNCTIONS'' (\<lambda>filename sql_content. sql_content) DEPLOYMENT_ORDER"
  let ?P3 = "planned_scripts E ''TRIGGERS'' (\<lambda>filename sql_content. sql_content) DEPLOYMENT_ORDER"
  let ?P4 = "rls_plan E enable"
  let ?N1 = "script_names ''DDL'' DEPLOYMENT_ORDER"
  let ?N2 = "script_names ''FUNCTIONS'' DEPLOYMENT_ORDER"
  let ?N3 = "script_names ''TRIGGERS'' DEPLOYMENT_ORDER"
  let ?N4 = "if enable then [''RLS/RLS_enable_rls.sql''] else []"
  have plan: "deploy_plan E force enable = ?P1 @ ?P2 @ ?P3 @ ?P4"
    and names: "deploy_names enable = ?N1 @ ?N2 @ ?N3 @ ?N4"
    by (simp_all add: deploy_plan_def deploy_names_def)
  obtain r1 s1 where p1: "deploy_ddl E force s = (r1, s1)" by (cases "deploy_ddl E force s")
  from deploy_scripts_runs[OF p1[unfolded deploy_ddl_def]] obtain new1 where
    n1: "runs ?P1 ?N1 s (\<not> isl r1) s1 new1" "\<forall>rs. r1 = Inr rs \<longrightarrow> rs = [] @ new1" by blast
  show ?thesis
  proof (cases r1)
    case (Inl e)
    with assms p1 have rs: "r = Inl e" "s' = s1" by (auto simp: deploy_all_steps_def)
    from n1(1) Inl have "runs ?P1 ?N1 s False s1 new1" by simp
    from runs_abort[OF this, of "?P2 @ ?P3 @ ?P4" "?N2 @ ?N3 @ ?N4"]
    show ?thesis unfolding plan names using rs by auto
  next
    case d: (Inr d)
    obtain r2 s2 where p2: "deploy_functions E s1 = (r2, s2)" by (cases "deploy_functions E s1")
    from deploy_scripts_runs[OF p2[unfolded deploy_functions_def]] obtain new2 where
      n2: "runs ?P2 ?N2 s1 (\<not> isl r2) s2 new2" "\<forall>rs. r2 = Inr rs \<longrightarrow> rs = [] @ new2" by blast
    have ld: "length d = 5"
    proof -
      have "map sr_script new1 = ?N1" "d = new1"
        using n1 d by (simp_all add: runs_def)
      then have "length d = length ?N1" by (metis length_map)
      then show ?thesis by simp
    qed
    have "runs ?P1 ?N1 s True s1 new1" using n1(1) d by simp
    from runs_seq[OF this n2(1)]
    have s12: "runs (?P1 @ ?P2) (?N1 @ ?N2) s (\<not> isl r2) s2 (new1 @ new2)" .
    show ?thesis
    proof (cases r2)
      case (Inl e)
      with assms p1 p2 d have rs: "r = Inl e" "s' = s2" by (auto simp: deploy_all_steps_def)
      from s12 Inl have "runs (?P1 @ ?P2) (?N1 @ ?N2) s False s2 (new1 @ new2)" by simp
      from runs_abort[OF this, of "?P3 @ ?P4" "?N3 @ ?N4"]
      show ?thesis unfolding plan names using rs by auto
    next
      case f: (Inr f)
      obtain r3 s3 where p3: "deploy_triggers E s2 = (r3, s3)" by (cases "deploy_triggers E s2")
      from deploy_scripts_runs[OF p3[unfolded deploy_triggers_def]] obtain new3 where
        n3: "runs ?P3 ?N3 s2 (\<not> isl r3) s3 new3" "\<forall>rs. r3 = Inr rs \<longrightarrow> rs = [] @ new3" by blast
      have lf: "length f = 3"
      proof -
        have "map sr_script new2 = ?N2" "f = new2"
          using n2 f by (simp_all add: runs_def)
        then have "length f = length ?N2" by (metis length_map)
        then show ?thesis by simp
      qed
      have "runs (?P1 @ ?P2) (?N1 @ ?N2) s True s2 (new1 @ new2)" using s12 f by simp
      from runs_seq[OF this n3(1)]
      have s123: "runs ((?P1 @ ?P2) @ ?P3) ((?N1 @ ?N2) @ ?N3) s (\<not> isl r3) s3 ((new1 @ new2) @ new3)" .
      show ?thesis
      proof (cases r3)
        case (Inl e)
        with assms p1 p2 p3 d f have rs: "r = Inl e" "s' = s3" by (auto simp: deploy_all_steps_def)
        from s123 Inl have "runs ((?P1 @ ?P2) @ ?P3) ((?N1 @ ?N2) @ ?N3) s False s3 ((new1 @ new2) @ new3)"
          by simp
        from runs_abort[OF this, of "?P4" "?N4"]
        show ?thesis unfolding plan names using rs by auto
      next
        case tr: (Inr tr)
        obtain r4 s4 where p4: "deploy_rls E enable s3 = (r4, s4)" by (cases "deploy_rls E enable s3")
        from deploy_rls_runs[OF p4] obtain new4 where
          n4: "runs ?P4 ?N4 s3 (\<not> isl r4) s4 new4" by blast
        have lt: "length tr = 1"
        proof -
          have "map sr_script new3 = ?N3" "tr = new3"
            using n3 tr by (simp_all add: runs_def)
          then have "length tr = length ?N3" by (metis length_map)
          then show ?thesis by simp
        qed
        have "runs ((?P1 @ ?P2) @ ?P3) ((?N1 @ ?N2) @ ?N3) s True s3 ((new1 @ new2) @ new3)"
          using s123 tr by simp
        from runs_seq[OF this n4]
        have all: "runs (((?P1 @ ?P2) @ ?P3) @ ?P4) (((?N1 @ ?N2) @ ?N3) @ ?N4) s (\<not> isl r4) s4
                     (((new1 @ new2) @ new3) @ new4)" .
        have fin: "s' = s4" "isl r = isl r4"
          "\<forall>d' f' t' x. r = Inr (d', f', t', x) \<longrightarrow> d' = d \<and> f' = f \<and> t' = tr"
          using assms p1 p2 p3 p4 d f tr by (auto simp: deploy_all_steps_def split: sum.splits)
        have "runs (deploy_plan E force enable) (deploy_names enable) s (\<not> isl r) s'
                (((new1 @ new2) @ new3) @ new4)"
          unfolding plan names using all fin(1,2) by simp
        with fin(3) ld lf lt show ?thesis by blast
      qed
    qed
  qed
qed

lemmas demo_defs = deploy_all_def deploy_all_steps_def deploy_ddl_def deploy_functions_def
  deploy_triggers_def deploy_rls_def execute_sql_script_def execute_script_def get_cursor_def
  get_connection_def getconn_def putconn_def commit_def rollback_def begin_txn_def execute_def
  now_def load_sql_file_def DEPLOYMENT_ORDER_def demo_env_def demo_state_def demo_server_def
  demo_sql_files_def new_conn_def Let_def ddl_content_def extract_table_name_def startswith_def
  endswith_def schema_mapping_def drop_sql_def

lemma extract_table_name_nonempty: "extract_table_name filename = Some t \<Longrightarrow> t \<noteq> []"
  by (auto simp: extract_table_name_def schema_mapping_def split: if_splits)

text \<open>
  Claim C8. The statements \<open>deploy_ddl\<close> sends are, in order, the schema scripts of the
  deployment order, each with the content \<open>ddl_content\<close> gives it, up to the first
  failure (all of them when \<open>deploy_ddl\<close> returns). With \<open>force_recreate\<close> that content
  is the script with one \<open>DROP TABLE IF EXISTS t CASCADE;\<close> line in front when the
  filename resolves to the table \<open>t\<close>, and the script itself when it does not resolve;
  without \<open>force_recreate\<close> it is the script itself. A script whose filename does not
  resolve runs exactly as it runs without \<open>force_recreate\<close>. The five schema scripts of
  the deployment order all resolve.
\<close>

theorem deploy_ddl_force_recreate:
  "(\<exists>k. calls (snd (deploy_ddl E force s))
          = calls s @ take k (planned_scripts E ''DDL'' (ddl_content force) DEPLOYMENT_ORDER))
   \<and> (\<forall>rs. fst (deploy_ddl E force s) = Inr rs \<longrightarrow>
          calls (snd (deploy_ddl E force s))
          = calls s @ planned_scripts E ''DDL'' (ddl_content force) DEPLOYMENT_ORDER)
   \<and> ddl_content force filename c =
        (if force then (case extract_table_name filename of
                          None \<Rightarrow> c
                        | Some t \<Rightarrow> ''DROP TABLE IF EXISTS '' @ t @ '' CASCADE;'' @ [CHR 0x0A] @ c)
         else c)
   \<and> (extract_table_name filename = None \<longrightarrow>
          deploy_scripts E ''DDL'' (ddl_content True) [(''DDL'', filename)] results s
          = deploy_scripts E ''DDL'' (ddl_content False) [(''DDL'', filename)] results s)
   \<and> map (\<lambda>(folder, filename). extract_table_name filename)
         (filter (\<lambda>(folder, filename). folder = ''DDL'') DEPLOYMENT_ORDER)
       = [Some ''bronze.company_info_raw'', Some ''public.unified_company_member'',
          Some ''public.new_agents'', Some ''public.unified_merge_logs'',
          Some ''public.new_unified_agents'']"
proof -
  obtain r s' where run: "deploy_scripts E ''DDL'' (ddl_content force) DEPLOYMENT_ORDER [] s = (r, s')"
    by (cases "deploy_scripts E ''DDL'' (ddl_content force) DEPLOYMENT_ORDER [] s")
  from deploy_scripts_calls[OF run] run
  have 1: "(\<exists>k. calls (snd (deploy_ddl E force s))
          = calls s @ take k (planned_scripts E ''DDL'' (ddl_content force) DEPLOYMENT_ORDER))
   \<and> (\<forall>rs. fst (deploy_ddl E force s) = Inr rs \<longrightarrow>
          calls (snd (deploy_ddl E force s))
          = calls s @ planned_scripts E ''DDL'' (ddl_content force) DEPLOYMENT_ORDER)"
    by (simp add: deploy_ddl_def)
  have 2: "ddl_content force filename c =
        (if force then (case extract_table_name filename of
                          None \<Rightarrow> c
                        | Some t \<Rightarrow> ''DROP TABLE IF EXISTS '' @ t @ '' CASCADE;'' @ [CHR 0x0A] @ c)
         else c)"
    by (auto simp: ddl_content_def drop_sql_def dest: extract_table_name_nonempty split: option.splits)
  have 3: "extract_table_name filename = None \<longrightarrow>
          deploy_scripts E ''DDL'' (ddl_content True) [(''DDL'', filename)] results s
          = deploy_scripts E ''DDL'' (ddl_content False) [(''DDL'', filename)] results s"
  proof
    assume none: "extract_table_name filename = None"
    have eq: "ddl_content True filename c = ddl_content False filename c" for c
      by (simp add: ddl_content_def none)
    show "deploy_scripts E ''DDL'' (ddl_content True) [(''DDL'', filename)] results s
          = deploy_scripts E ''DDL'' (ddl_content False) [(''DDL'', filename)] results s"
      by (simp add: eq split: sum.splits prod.splits)
  qed
  have 4: "map (\<lambda>(folder, filename). extract_table_name filename)
         (filter (\<lambda>(folder, filename). folder = ''DDL'') DEPLOYMENT_ORDER)
       = [Some ''bronze.company_info_raw'', Some ''public.unified_company_member'',
          Some ''public.new_agents'', Some ''public.unified_merge_logs'',
          Some ''public.new_unified_agents'']"
    by (simp add: DEPLOYMENT_ORDER_def extract_table_name_def startswith_def endswith_def
          schema_mapping_def)
  from 1 2 3 4 show ?thesis by blast
qed

text \<open>
  At a concrete run: \<open>CREATE_audit_trail.sql\<close> does not resolve and is executed as it is,
  and a forced \<open>deploy_ddl\<close> sends the five scripts, each behind its drop statement.
\<close>

theorem deploy_ddl_force_recreate_witness:
  "extract_table_name ''CREATE_audit_trail.sql'' = None
   \<and> deploy_scripts (demo_env []) ''DDL'' (ddl_content True) [(''DDL'', ''CREATE_audit_trail.sql'')] [] demo_state
     = deploy_scripts (demo_env []) ''DDL'' (ddl_content False) [(''DDL'', ''CREATE_audit_trail.sql'')] [] demo_state
   \<and> calls (snd (deploy_scripts (demo_env []) ''DDL'' (ddl_content True) [(''DDL'', ''CREATE_audit_trail.sql'')] [] demo_state))
     = [Script ''-- CREATE_audit_trail.sql'']
   \<and> (\<exists>rs. fst (deploy_ddl (demo_env []) True demo_state) = Inr rs)
   \<and> calls (snd (deploy_ddl (demo_env []) True demo_state))
     = [Script (''DROP TABLE IF EXISTS bronze.company_info_raw CASCADE;'' @ [CHR 0x0A] @ ''-- CREATE_company_info_raw.sql''),
        Script (''DROP TABLE IF EXISTS public.unified_company_member CASCADE;'' @ [CHR 0x0A] @ ''-- CREATE_unified_company_member.sql''),
        Script (''DROP TABLE IF EXISTS public.new_agents CASCADE;'' @ [CHR 0x0A] @ ''-- CREATE_new_agents.sql''),
        Script (''DROP TABLE IF EXISTS public.unified_merge_logs CASCADE;'' @ [CHR 0x0A] @ ''-- CREATE_unified_merge_logs.sql''),
        Script (''DROP TABLE IF EXISTS public.new_unified_agents CASCADE;'' @ [CHR 0x0A] @ ''-- CREATE_new_unified_agents.sql'')]"
proof -
  have none: "extract_table_name ''CREATE_audit_trail.sql'' = None"
    by (simp add: extract_table_name_def startswith_def endswith_def schema_mapping_def)
  have ok: "\<exists>rs. fst (deploy_ddl (demo_env []) True demo_state) = Inr rs"
    by (simp add: demo_defs)
  have one: "calls (snd (deploy_scripts (demo_env []) ''DDL'' (ddl_content True) [(''DDL'', ''CREATE_audit_trail.sql'')] [] demo_state))
     = [Script ''-- CREATE_audit_trail.sql'']"
    by (simp add: demo_defs)
  have plan: "planned_scripts (demo_env []) ''DDL'' (ddl_content True) DEPLOYMENT_ORDER
     = [Script (''DROP TABLE IF EXISTS bronze.company_info_raw CASCADE;'' @ [CHR 0x0A] @ ''-- CREATE_company_info_raw.sql''),
        Script (''DROP TABLE IF EXISTS public.unified_company_member CASCADE;'' @ [CHR 0x0A] @ ''-- CREATE_unified_company_member.sql''),
        Script (''DROP TABLE IF EXISTS public.new_agents CASCADE;'' @ [CHR 0x0A] @ ''-- CREATE_new_agents.sql''),
        Script (''DROP TABLE IF EXISTS public.unified_merge_logs CASCADE;'' @ [CHR 0x0A] @ ''-- CREATE_unified_merge_logs.sql''),
        Script (''DROP TABLE IF EXISTS public.new_unified_agents CASCADE;'' @ [CHR 0x0A] @ ''-- CREATE_new_unified_agents.sql'')]"
    by (simp add: demo_defs)
  have st: "calls demo_state = []" by (simp add: demo_state_def)
  from deploy_ddl_force_recreate[of "demo_env []" True demo_state "''CREATE_audit_trail.sql''" "[]" "[]"]
    none ok one plan st
  show ?thesis by auto
qed

text \<open>
  Claim C4 (the code departs from the claim). The mapping sends \<open>raw_company_info.csv\<close> to
  \<open>public.company_info_raw\<close>; the deployer drops, creates and verifies
  \<open>bronze.company_info_raw\<close>, and no table \<open>public.company_info_raw\<close> is among the tables
  it expects.
\<close>

theorem csv_mapping_schema_mismatch:
  "map_of CSV_TABLE_MAPPING ''raw_company_info.csv'' = Some (''public'', ''company_info_raw'')
   \<and> (''public'', ''company_info_raw'') \<notin> set expected_tables
   \<and> (''bronze'', ''company_info_raw'') \<in> set expected_tables
   \<and> extract_table_name ''CREATE_company_info_raw.sql'' = Some ''bronze.company_info_raw''"
  by (simp add: CSV_TABLE_MAPPING_def expected_tables_def extract_table_name_def startswith_def
        endswith_def schema_mapping_def)

lemma now_state: "now E s = (t, s0) \<Longrightarrow>
   calls s0 = calls s \<and> deployment_log s0 = deployment_log s \<and> load_log s0 = load_log s
   \<and> ticks s0 = Suc (ticks s) \<and> t = clock E (ticks s)
   \<and> pool s0 = pool s \<and> conns s0 = conns s \<and> database s0 = database s"
  by (auto simp: now_def)

text \<open>
  Claim C1 as stated fails on a failed run: when the first function script is rejected,
  the summary \<open>deploy_all\<close> returns has status failed and the error message, and none of
  the per-phase counts.
\<close>

theorem deploy_all_counts_missing_after_failure:
  "ds_status (fst (deploy_all (demo_env [Script ''-- helper_functions.sql'']) False True demo_state)) = Failed
   \<and> ds_error (fst (deploy_all (demo_env [Script ''-- helper_functions.sql'']) False True demo_state))
       = Some ''statement rejected''
   \<and> ds_ddl_count (fst (deploy_all (demo_env [Script ''-- helper_functions.sql'']) False True demo_state)) = None
   \<and> ds_function_count (fst (deploy_all (demo_env [Script ''-- helper_functions.sql'']) False True demo_state)) = None
   \<and> ds_trigger_count (fst (deploy_all (demo_env [Script ''-- helper_functions.sql'']) False True demo_state)) = None"
  by (simp add: demo_defs)

text \<open>
  Claim C1, amended. For every value of \<open>force_recreate\<close> and \<open>enable_rls\<close>, \<open>deploy_all\<close>
  returns a summary and raises nothing. The scripts it logs are, in order, a prefix of the
  schema scripts, then the function scripts, then the trigger scripts, then the policy
  script (when enabled); every logged script but the last succeeded, so nothing runs after
  a failure; the statements sent are a prefix of the planned ones. The summary holds the
  cumulative log and a status. A successful summary holds the counts 5, 3 and 1, and all
  planned scripts were logged and sent; a failed summary holds the message of the exception
  that left the phase, and no per-phase count.
\<close>

theorem deploy_all_ordered_fail_fast:
  assumes run: "deploy_all E force enable s = (r, s')"
  shows "\<exists>new. deployment_log s' = deployment_log s @ new
           \<and> ds_deployment_log r = deployment_log s'
           \<and> (\<exists>j. map sr_script new = take j (deploy_names enable))
           \<and> all_success (butlast new)
           \<and> (\<exists>k. calls s' = calls s @ take k (deploy_plan E force enable))
           \<and> (ds_status r = Success \<or> ds_status r = Failed)
           \<and> (ds_status r = Success \<longrightarrow>
                 all_success new \<and> map sr_script new = deploy_names enable
                 \<and> calls s' = calls s @ deploy_plan E force enable
                 \<and> ds_ddl_count r = Some 5 \<and> ds_function_count r = Some 3
                 \<and> ds_trigger_count r = Some 1 \<and> ds_rls_enabled r = Some enable
                 \<and> ds_error r = None)
           \<and> (ds_status r = Failed \<longrightarrow>
                 (\<exists>e. fst (deploy_all_steps E force enable (snd (now E s))) = Inl e
                      \<and> ds_error r = Some (str e))
                 \<and> ds_ddl_count r = None \<and> ds_function_count r = None
                 \<and> ds_trigger_count r = None \<and> ds_rls_enabled r = None)"
proof -
  obtain t0 s0 where n0: "now E s = (t0, s0)" by (cases "now E s")
  obtain r1 s1 where st: "deploy_all_steps E force enable s0 = (r1, s1)"
    by (cases "deploy_all_steps E force enable s0")
  obtain t1 s2 where n1: "now E s1 = (t1, s2)" by (cases "now E s1")
  from deploy_all_steps_runs[OF st] obtain new where
    rn: "runs (deploy_plan E force enable) (deploy_names enable) s0 (\<not> isl r1) s1 new"
    and len: "\<forall>d f t x. r1 = Inr (d, f, t, x) \<longrightarrow> length d = 5 \<and> length f = 3 \<and> length t = 1"
    by blast
  note a = now_state[OF n0] and b = now_state[OF n1]
  have s2: "s' = s2" using run n0 st n1 by (auto simp: deploy_all_def split: sum.splits)
  have log: "deployment_log s' = deployment_log s @ new"
    and pre: "\<exists>j. map sr_script new = take j (deploy_names enable)"
    and bl: "all_success (butlast new)"
    and cl: "\<exists>k. calls s' = calls s @ take k (deploy_plan E force enable)"
    using rn a b s2 by (simp_all add: runs_def)
  show ?thesis
  proof (cases r1)
    case (Inl e)
    have r: "r = \<lparr>ds_status = Failed, ds_error = Some (str e),
                  ds_total_duration_seconds = t1 - t0,
                  ds_ddl_count = None, ds_function_count = None,
                  ds_trigger_count = None, ds_rls_enabled = None,
                  ds_deployment_log = deployment_log s2, ds_timestamp = t0\<rparr>"
      using run n0 st n1 Inl by (auto simp: deploy_all_def)
    have "fst (deploy_all_steps E force enable (snd (now E s))) = Inl e"
      using n0 st Inl by simp
    with r log pre bl cl s2 show ?thesis by (intro exI[of _ new]) auto
  next
    case (Inr x)
    obtain d f t y where x: "x = (d, f, t, y)" by (cases x) auto
    have r: "r = \<lparr>ds_status = Success, ds_error = None,
                  ds_total_duration_seconds = t1 - t0,
                  ds_ddl_count = Some (length d), ds_function_count = Some (length f),
                  ds_trigger_count = Some (length t), ds_rls_enabled = Some enable,
                  ds_deployment_log = deployment_log s2, ds_timestamp = t0\<rparr>"
      using run n0 st n1 Inr x by (auto simp: deploy_all_def)
    have full: "all_success new" "map sr_script new = deploy_names enable"
      "calls s' = calls s @ deploy_plan E force enable"
      using rn Inr a b s2 by (simp_all add: runs_def)
    from len Inr x have "length d = 5" "length f = 3" "length t = 1" by auto
    with r log pre bl cl s2 full show ?thesis by (intro exI[of _ new]) auto
  qed
qed

text \<open>
  At concrete runs: a forced deployment that succeeds, and one whose first function script
  is rejected, which logs the five schema scripts and the rejected one and stops.
\<close>

theorem deploy_all_ordered_fail_fast_witness:
  "ds_status (fst (deploy_all (demo_env []) True True demo_state)) = Success
   \<and> ds_ddl_count (fst (deploy_all (demo_env []) True True demo_state)) = Some 5
   \<and> map sr_script (deployment_log (snd (deploy_all (demo_env []) True True demo_state)))
       = deploy_names True
   \<and> calls (snd (deploy_all (demo_env []) True True demo_state))
       = deploy_plan (demo_env []) True True
   \<and> ds_status (fst (deploy_all (demo_env [Script ''-- helper_functions.sql'']) False True demo_state)) = Failed
   \<and> map sr_script (deployment_log (snd (deploy_all (demo_env [Script ''-- helper_functions.sql'']) False True demo_state)))
       = take 6 (deploy_names True)
   \<and> map sr_status (deployment_log (snd (deploy_all (demo_env [Script ''-- helper_functions.sql'']) False True demo_state)))
       = [Success, Success, Success, Success, Success, Failed]"
proof -
  let ?ok = "deploy_all (demo_env []) True True demo_state"
  let ?bad = "deploy_all (demo_env [Script ''-- helper_functions.sql'']) False True demo_state"
  have run: "?ok = (fst ?ok, snd ?ok)" by simp
  have st: "ds_status (fst ?ok) = Success" by (simp add: demo_defs)
  have e: "deployment_log demo_state = []" "calls demo_state = []" by (simp_all add: demo_state_def)
  from deploy_all_ordered_fail_fast[OF run] st e
  have 1: "ds_ddl_count (fst ?ok) = Some 5
     \<and> map sr_script (deployment_log (snd ?ok)) = deploy_names True
     \<and> calls (snd ?ok) = deploy_plan (demo_env []) True True"
    by auto
  have 2: "ds_status (fst ?bad) = Failed" by (simp add: demo_defs)
  have 3: "map sr_script (deployment_log (snd ?bad)) = take 6 (deploy_names True)"
    by (simp add: demo_defs deploy_names_def)
  have 4: "map sr_status (deployment_log (snd ?bad)) = [Success, Success, Success, Success, Success, Failed]"
    by (simp add: demo_defs)
  from st 1 2 3 4 show ?thesis by simp
qed

lemma sends_nothing: "sends s s' [] \<longleftrightarrow> client_eq s s'"
  by (auto simp: sends_def client_eq_def)

lemma sends_refl: "sends s s []"
  by (simp add: sends_def)

lemma sends_trans: "sends s s1 xs \<Longrightarrow> sends s1 s2 ys \<Longrightarrow> sends s s2 (xs @ ys)"
  by (simp add: sends_def)

lemma execute_sends: "execute E cur q s = (r, s') \<Longrightarrow> sends s s' [q]"
  by (drule execute_client) (simp add: sends_def)

lemma prefix_run_none: "prefix_run plan False []"
  by (auto simp: prefix_run_def intro: exI[of _ 0])

lemma prefix_run_all: "prefix_run plan c plan"
  by (auto simp: prefix_run_def intro: exI[of _ "length plan"])

lemma prefix_run_weaken: "prefix_run plan c xs \<Longrightarrow> prefix_run plan False xs"
  by (simp add: prefix_run_def)

lemma prefix_run_seq: "prefix_run p2 c ys \<Longrightarrow> prefix_run (p1 @ p2) c (p1 @ ys)"
  unfolding prefix_run_def using append_take_append[of p1 _ p2] by auto

lemma prefix_run_abort: "prefix_run p1 False xs \<Longrightarrow> prefix_run (p1 @ p2) False xs"
  unfolding prefix_run_def using take_prefix_append[of _ p1 p2] by auto

lemma prefix_run_single: "prefix_run [q] c [q]" "prefix_run [q] False []"
  by (rule prefix_run_all) (rule prefix_run_none)

lemma get_cursor_sends:
  assumes run: "get_cursor E dc ac body s = (r, s')"
      and body: "\<And>cur s0 s1. body cur s0 = (r, s1) \<Longrightarrow> \<exists>xs. sends s0 s1 xs \<and> P xs"
      and fail: "isl r \<Longrightarrow> P []"
  shows "\<exists>xs. sends s s' xs \<and> P xs"
  using run
proof (cases rule: get_cursor_cases)
  case (no_connection e)
  with fail show ?thesis by (intro exI[of _ "[]"]) (simp add: sends_nothing)
next
  case (body cur s0 s1)
  from assms(2)[OF body(2)] obtain xs where "sends s0 s1 xs" "P xs" by blast
  with body(1,3) show ?thesis
    by (intro exI[of _ xs]) (simp add: sends_def client_eq_def)
qed

lemma execute_only_sends:
  assumes "get_cursor E dc ac (\<lambda>cur s0. case execute E cur q s0 of
              (Inl e, s1) \<Rightarrow> (Inl e, s1) | (Inr rep, s1) \<Rightarrow> f cur rep s1) s = (r, s')"
      and "\<And>cur rep s1. snd (f cur rep s1) = s1"
  shows "\<exists>xs. sends s s' xs \<and> prefix_run [q] (\<not> isl r) xs"
  using assms(1)
proof (rule get_cursor_sends)
  fix cur s0 s1
  assume b: "(case execute E cur q s0 of (Inl e, s1) \<Rightarrow> (Inl e, s1) | (Inr rep, s1) \<Rightarrow> f cur rep s1) = (r, s1)"
  obtain r0 t where x: "execute E cur q s0 = (r0, t)" by (cases "execute E cur q s0")
  have "s1 = t"
  proof (cases r0)
    case (Inl e)
    with b x show ?thesis by simp
  next
    case (Inr rep)
    with b x have "f cur rep t = (r, s1)" by simp
    then have "snd (f cur rep t) = s1" by simp
    with assms(2) show ?thesis by simp
  qed
  with execute_sends[OF x] show "\<exists>xs. sends s0 s1 xs \<and> prefix_run [q] (\<not> isl r) xs"
    by (intro exI[of _ "[q]"]) (simp add: prefix_run_all)
next
  assume "isl r" then show "prefix_run [q] (\<not> isl r) []" by (simp add: prefix_run_none)
qed

lemma fetch_scalar_sends:
  assumes "fetch_scalar E q s = (r, s')"
  shows "\<exists>xs. sends s s' xs \<and> prefix_run [q] (\<not> isl r) xs"
  using assms unfolding fetch_scalar_def
  by (rule execute_only_sends) (simp split: sum.splits)

lemma call_procedure_sends:
  assumes "call_procedure E name s = (r, s')"
  shows "\<exists>xs. sends s s' xs \<and> prefix_run [CallProcedure name] (\<not> isl r) xs"
  using assms unfolding call_procedure_def
  by (rule execute_only_sends) simp

lemma table_exists_sends:
  assumes "table_exists E table schema s = (v, s')"
  shows "\<exists>xs. sends s s' xs \<and> prefix_run [TableExistsQuery schema table] (truthy v) xs"
proof -
  obtain r s1 where f: "fetch_scalar E (TableExistsQuery schema table) s = (r, s1)"
    by (cases "fetch_scalar E (TableExistsQuery schema table) s")
  from fetch_scalar_sends[OF f] obtain xs where
    x: "sends s s1 xs" "prefix_run [TableExistsQuery schema table] (\<not> isl r) xs" by blast
  have "s' = s1" "truthy v \<longrightarrow> \<not> isl r"
    using assms f by (cases r; auto simp: table_exists_def)+
  with x show ?thesis by (intro exI[of _ xs]) (auto simp: prefix_run_def)
qed

lemma load_csv_with_copy_sends:
  assumes "load_csv_with_copy E fn schema table s = (r, s')"
  shows "\<exists>xs. sends s s' xs \<and> prefix_run (copy_plan E fn schema table) (\<not> isl r) xs"
  using assms unfolding load_csv_with_copy_def
proof (rule get_cursor_sends)
  fix cur s0 s1
  assume b: "(case csv_files E fn of
          None \<Rightarrow> (Inl (FileNotFoundError (csv_base_path @ ''/'' @ fn)), s0)
        | Some f \<Rightarrow>
            (case csv_lines f of
               [] \<Rightarrow> (Inl StopIteration, s0)
             | first_line # remaining \<Rightarrow>
                 (case execute E cur (CopyFromStdin schema table remaining) s0 of
                    (Inl e, s1) \<Rightarrow> (Inl e, s1)
                  | (Inr r, s1) \<Rightarrow> (Inr (rowcount r), s1)))) = (r, s1)"
  show "\<exists>xs. sends s0 s1 xs \<and> prefix_run (copy_plan E fn schema table) (\<not> isl r) xs"
  proof (cases "csv_files E fn")
    case None
    with b show ?thesis
      by (intro exI[of _ "[]"]) (auto simp: sends_refl prefix_run_none)
  next
    case (Some f)
    show ?thesis
    proof (cases "csv_lines f")
      case Nil
      with b Some show ?thesis
        by (intro exI[of _ "[]"]) (auto simp: sends_refl prefix_run_none)
    next
      case (Cons h remaining)
      obtain r0 t where x: "execute E cur (CopyFromStdin schema table remaining) s0 = (r0, t)"
        by (cases "execute E cur (CopyFromStdin schema table remaining) s0")
      have "s1 = t" using b Some Cons x by (cases r0) auto
      with execute_sends[OF x] Some Cons show ?thesis
        by (intro exI[of _ "[CopyFromStdin schema table remaining]"])
           (simp add: copy_plan_def prefix_run_all)
    qed
  qed
next
  assume "isl r" then show "prefix_run (copy_plan E fn schema table) (\<not> isl r) []"
    by (simp add: prefix_run_none)
qed

lemma insert_rows_sends:
  "insert_rows E cur schema table columns rs s = (r, s') \<Longrightarrow>
     \<exists>xs. sends s s' xs \<and> prefix_run (map (insert_stmt schema table columns) rs) (\<not> isl r) xs"
proof (induction rs arbitrary: s)
  case Nil
  then show ?case by (intro exI[of _ "[]"]) (auto simp: sends_refl prefix_run_all)
next
  case (Cons a rs)
  obtain r1 s1 where x: "execute E cur (insert_stmt schema table columns a) s = (r1, s1)"
    by (cases "execute E cur (insert_stmt schema table columns a) s")
  note e = execute_sends[OF x]
  show ?case
  proof (cases r1)
    case (Inl err)
    with Cons.prems x have "r = Inl err" "s' = s1" by (auto simp: insert_stmt_def)
    moreover have "prefix_run (map (insert_stmt schema table columns) (a # rs)) False
                     [insert_stmt schema table columns a]"
      using prefix_run_abort[OF prefix_run_all[of "[insert_stmt schema table columns a]" False],
              of "map (insert_stmt schema table columns) rs"] by simp
    ultimately show ?thesis using e
      by (intro exI[of _ "[insert_stmt schema table columns a]"]) simp
  next
    case (Inr rep)
    with Cons.prems x have rec: "insert_rows E cur schema table columns rs s1 = (r, s')"
      by (auto simp: insert_stmt_def)
    from Cons.IH[OF rec] obtain ys where
      k: "sends s1 s' ys" "prefix_run (map (insert_stmt schema table columns) rs) (\<not> isl r) ys"
      by blast
    from sends_trans[OF e k(1)] prefix_run_seq[OF k(2), of "[insert_stmt schema table columns a]"]
    show ?thesis by (intro exI[of _ "[insert_stmt schema table columns a] @ ys"]) simp
  qed
qed

lemma insert_batch_sends:
  assumes "insert_batch E schema table columns b s = (r, s')"
  shows "\<exists>xs. sends s s' xs \<and> prefix_run (map (insert_stmt schema table columns) b) (\<not> isl r) xs"
proof (cases "b = []")
  case True
  with assms show ?thesis
    by (intro exI[of _ "[]"]) (auto simp: insert_batch_def sends_refl prefix_run_all)
next
  case False
  with assms have "get_cursor E False False (\<lambda>cur. insert_rows E cur schema table columns b) s = (r, s')"
    by (simp add: insert_batch_def)
  then show ?thesis
    by (rule get_cursor_sends) (auto dest: insert_rows_sends simp: prefix_run_none)
qed

lemma insert_loop_sends:
  "insert_loop E schema table columns batch_size rs batch tot s = (r, s') \<Longrightarrow>
     \<exists>xs. sends s s' xs
        \<and> prefix_run (map (insert_stmt schema table columns) (batch @ rs)) (\<not> isl r) xs"
proof (induction rs arbitrary: batch tot s)
  case Nil
  show ?case
  proof (cases "batch = []")
    case True
    with Nil show ?thesis by (intro exI[of _ "[]"]) (auto simp: sends_refl prefix_run_all)
  next
    case False
    obtain r1 s1 where b: "insert_batch E schema table columns batch s = (r1, s1)"
      by (cases "insert_batch E schema table columns batch s")
    from insert_batch_sends[OF b] obtain xs where
      x: "sends s s1 xs" "prefix_run (map (insert_stmt schema table columns) batch) (\<not> isl r1) xs"
      by blast
    have "s' = s1" "isl r = isl r1" using Nil False b by (cases r1; auto)+
    with x show ?thesis by (intro exI[of _ xs]) simp
  qed
next
  case (Cons a rs)
  let ?ins = "insert_stmt schema table columns"
  show ?case
  proof (cases "int (length (batch @ [a])) \<ge> batch_size")
    case False
    with Cons.prems have "insert_loop E schema table columns batch_size rs (batch @ [a]) tot s = (r, s')"
      by simp
    from Cons.IH[OF this] show ?thesis by simp
  next
    case True
    obtain r1 s1 where b: "insert_batch E schema table columns (batch @ [a]) s = (r1, s1)"
      by (cases "insert_batch E schema table columns (batch @ [a]) s")
    from insert_batch_sends[OF b] obtain xs where
      x: "sends s s1 xs" "prefix_run (map ?ins (batch @ [a])) (\<not> isl r1) xs"
      by blast
    show ?thesis
    proof (cases r1)
      case (Inl e)
      with Cons.prems True b have rs: "r = Inl e" "s' = s1" by auto
      from x(2) Inl have "prefix_run (map ?ins (batch @ [a])) False xs" by simp
      from prefix_run_abort[OF this, of "map ?ins rs"] x(1) rs
      show ?thesis by (intro exI[of _ xs]) simp
    next
      case (Inr u)
      with Cons.prems True b
      have rec: "insert_loop E schema table columns batch_size rs []
                   (tot + int (length (batch @ [a]))) s1 = (r, s')" by auto
      from Cons.IH[OF rec] obtain ys where
        y: "sends s1 s' ys" "prefix_run (map ?ins rs) (\<not> isl r) ys" by auto
      from x(2) Inr have xs: "xs = map ?ins (batch @ [a])" by (simp add: prefix_run_def)
      from sends_trans[OF x(1) y(1)] prefix_run_seq[OF y(2), of "map ?ins (batch @ [a])"] xs
      show ?thesis by (intro exI[of _ "xs @ ys"]) simp
    qed
  qed
qed






lemma load_csv_with_insert_sends:
  assumes "load_csv_with_insert E fn schema table batch_size s = (r, s')"
  shows "\<exists>xs. sends s s' xs \<and> prefix_run (insert_plan E fn schema table) (\<not> isl r) xs"
proof (cases "csv_files E fn")
  case None
  with assms show ?thesis
    by (intro exI[of _ "[]"]) (auto simp: load_csv_with_insert_def sends_refl prefix_run_none)
next
  case (Some f)
  show ?thesis
  proof (cases "csv_records f")
    case Nil
    with assms Some show ?thesis
      by (intro exI[of _ "[]"]) (auto simp: load_csv_with_insert_def sends_refl prefix_run_none)
  next
    case (Cons columns lines)
    show ?thesis
    proof (cases "columns = []")
      case True
      with assms Some Cons show ?thesis
        by (intro exI[of _ "[]"]) (auto simp: load_csv_with_insert_def sends_refl prefix_run_none)
    next
      case False
      with assms Some Cons
      have "insert_loop E schema table columns batch_size (filter (\<lambda>r. r \<noteq> []) lines) [] 0 s = (r, s')"
        by (simp add: load_csv_with_insert_def)
      from insert_loop_sends[OF this] Some Cons False show ?thesis
        by (simp add: insert_plan_def)
    qed
  qed
qed

lemma load_csv_try_unmapped:
  "map_of CSV_TABLE_MAPPING fn = None \<Longrightarrow>
   load_csv_try E fn uc s = (Inl (ValueError (''No table mapping found for CSV: '' @ fn)), s)"
  by (simp add: load_csv_try_def)

lemma load_csv_try_sends:
  assumes mapped: "map_of CSV_TABLE_MAPPING fn = Some (schema, table)"
      and run: "load_csv_try E fn uc s = (r, s')"
  shows "\<exists>a c i. sends s s' (take a [TableExistsQuery schema table]
                     @ take c (copy_plan E fn schema table)
                     @ take i (insert_plan E fn schema table))"
proof (cases "csv_files E fn")
  case None
  with assms have "s' = s" by (auto simp: load_csv_try_def get_csv_path_def)
  then have "sends s s' (take 0 [TableExistsQuery schema table]
                     @ take 0 (copy_plan E fn schema table)
                     @ take 0 (insert_plan E fn schema table))" by (simp add: sends_refl)
  then show ?thesis by blast
next
  case (Some f)
  obtain ex s1 where te: "table_exists E table schema s = (ex, s1)"
    by (cases "table_exists E table schema s")
  from table_exists_sends[OF te] obtain xs where
    x: "sends s s1 xs" "prefix_run [TableExistsQuery schema table] (truthy ex) xs" by blast
  then obtain a where a: "xs = take a [TableExistsQuery schema table]"
    by (auto simp: prefix_run_def)
  show ?thesis
  proof (cases "truthy ex")
    case False
    with assms Some te have "s' = s1" by (auto simp: load_csv_try_def get_csv_path_def)
    with x a have "sends s s' (take a [TableExistsQuery schema table]
                     @ take 0 (copy_plan E fn schema table)
                     @ take 0 (insert_plan E fn schema table))" by simp
    then show ?thesis by blast
  next
    case True
    have fallback: "\<exists>i. sends s0 s3 (take i (insert_plan E fn schema table))"
      if "load_csv_with_insert E fn schema table 1000 s0 = (ri, s3)" for s0 ri s3
      using load_csv_with_insert_sends[OF that] by (auto simp: prefix_run_def)
    show ?thesis
    proof (cases uc)
      case False
      obtain ri s3 where li: "load_csv_with_insert E fn schema table 1000 s1 = (ri, s3)"
        by (cases "load_csv_with_insert E fn schema table 1000 s1")
      with assms Some te True False have "s' = s3"
        by (cases ri) (auto simp: load_csv_try_def get_csv_path_def)
      moreover from fallback[OF li] obtain i where "sends s1 s3 (take i (insert_plan E fn schema table))"
        by blast
      ultimately have "sends s s' (take a [TableExistsQuery schema table]
                     @ take 0 (copy_plan E fn schema table)
                     @ take i (insert_plan E fn schema table))"
        using sends_trans[OF x(1)] a by simp
      then show ?thesis by blast
    next
      case uct: True
      obtain rc s2 where lc: "load_csv_with_copy E fn schema table s1 = (rc, s2)"
        by (cases "load_csv_with_copy E fn schema table s1")
      from load_csv_with_copy_sends[OF lc] obtain ys c where
        y: "sends s1 s2 ys" "ys = take c (copy_plan E fn schema table)"
        by (auto simp: prefix_run_def)
      show ?thesis
      proof (cases rc)
        case (Inr n)
        with assms Some te True uct lc have "s' = s2"
          by (auto simp: load_csv_try_def get_csv_path_def)
        with sends_trans[OF x(1) y(1)] a y(2)
        have "sends s s' (take a [TableExistsQuery schema table]
                     @ take c (copy_plan E fn schema table)
                     @ take 0 (insert_plan E fn schema table))" by simp
        then show ?thesis by blast
      next
        case (Inl e)
        obtain ri s3 where li: "load_csv_with_insert E fn schema table 1000 s2 = (ri, s3)"
          by (cases "load_csv_with_insert E fn schema table 1000 s2")
        with assms Some te True uct lc Inl have "s' = s3"
          by (cases ri) (auto simp: load_csv_try_def get_csv_path_def)
        moreover from fallback[OF li] obtain i where "sends s2 s3 (take i (insert_plan E fn schema table))"
          by blast
        ultimately have "sends s s' (take a [TableExistsQuery schema table]
                     @ take c (copy_plan E fn schema table)
                     @ take i (insert_plan E fn schema table))"
          using sends_trans[OF sends_trans[OF x(1) y(1)]] a y(2) by simp
        then show ?thesis by blast
      qed
    qed
  qed
qed

lemma loader_stmt_plans:
  "list_all loader_stmt (take a [TableExistsQuery schema table])"
  "list_all loader_stmt (take c (copy_plan E fn schema table))"
  "list_all loader_stmt (take i (insert_plan E fn schema table))"
  by (auto simp: list_all_iff copy_plan_def insert_plan_def insert_stmt_def
        split: option.splits list.splits if_splits dest!: in_set_takeD)

lemma load_csv_try_loader:
  assumes "load_csv_try E fn uc s = (r, s')"
  shows "\<exists>xs. sends s s' xs \<and> list_all loader_stmt xs"
proof (cases "map_of CSV_TABLE_MAPPING fn")
  case None
  from load_csv_try_unmapped[OF this, of E uc s] assms show ?thesis
    by (intro exI[of _ "[]"]) (simp add: sends_refl)
next
  case (Some p)
  obtain schema table where p: "p = (schema, table)" by (cases p)
  from load_csv_try_sends[OF Some[unfolded p] assms] obtain a c i where
    "sends s s' (take a [TableExistsQuery schema table]
                     @ take c (copy_plan E fn schema table)
                     @ take i (insert_plan E fn schema table))" by blast
  then show ?thesis
    by (intro exI[of _ "take a [TableExistsQuery schema table]
                     @ take c (copy_plan E fn schema table)
                     @ take i (insert_plan E fn schema table)"])
       (simp add: loader_stmt_plans)
qed

lemma load_csv_effect:
  assumes "load_csv E fn uc s = (r, s')"
  shows "\<exists>entry xs. load_log s' = load_log s @ [entry] \<and> deployment_log s' = deployment_log s
           \<and> calls s' = calls s @ xs \<and> list_all loader_stmt xs
           \<and> lr_csv_file entry = fn
           \<and> (\<forall>res. r = Inr res \<longrightarrow> res = entry \<and> lr_status entry = Success)
           \<and> (\<forall>e. r = Inl e \<longrightarrow> lr_status entry = Failed \<and> lr_error entry = Some (str e))"
proof -
  obtain t0 s0 where n0: "now E s = (t0, s0)" by (cases "now E s")
  obtain r1 s1 where tr: "load_csv_try E fn uc s0 = (r1, s1)" by (cases "load_csv_try E fn uc s0")
  obtain t1 s2 where n1: "now E s1 = (t1, s2)" by (cases "now E s1")
  from load_csv_try_loader[OF tr] obtain xs where
    x: "sends s0 s1 xs" "list_all loader_stmt xs" by blast
  note a = now_state[OF n0] and b = now_state[OF n1]
  show ?thesis
  proof (cases r1)
    case (Inl e)
    let ?entry = "\<lparr>lr_csv_file = fn, lr_table = None, lr_status = Failed, lr_rows_loaded = None,
                    lr_error = Some (str e), lr_duration_seconds = t1 - t0, lr_timestamp = t0\<rparr>"
    have "r = Inl e" "s' = s2\<lparr>load_log := load_log s2 @ [?entry]\<rparr>"
      using assms n0 tr n1 Inl by (auto simp: load_csv_def Let_def)
    with x a b show ?thesis
      by (intro exI[of _ ?entry] exI[of _ xs]) (simp add: sends_def)
  next
    case (Inr y)
    obtain schema table n where y: "y = (schema, table, n)" by (cases y) auto
    let ?entry = "\<lparr>lr_csv_file = fn, lr_table = Some (schema @ ''.'' @ table),
                    lr_status = Success, lr_rows_loaded = Some n, lr_error = None,
                    lr_duration_seconds = t1 - t0, lr_timestamp = t0\<rparr>"
    have "r = Inr ?entry" "s' = s2\<lparr>load_log := load_log s2 @ [?entry]\<rparr>"
      using assms n0 tr n1 Inr y by (auto simp: load_csv_def Let_def)
    with x a b show ?thesis
      by (intro exI[of _ ?entry] exI[of _ xs]) (simp add: sends_def)
  qed
qed

lemmas loader_defs = load_csv_def load_csv_try_def load_csv_with_copy_def
  load_csv_with_insert_def insert_batch_def get_csv_path_def table_exists_def fetch_scalar_def
  CSV_TABLE_MAPPING_def demo_csv_files_def fetchone_def row_values_def copy_plan_def
  insert_plan_def insert_stmt_def load_all_csvs_def



lemma load_all_loop_effect:
  "load_all_loop E uc keys results tot s = (r, s') \<Longrightarrow>
    \<exists>new xs. load_log s' = load_log s @ new \<and> deployment_log s' = deployment_log s
      \<and> calls s' = calls s @ xs \<and> list_all loader_stmt xs
      \<and> (\<exists>j. map lr_csv_file new = take j (present E keys))
      \<and> loaded (butlast new)
      \<and> (\<forall>rs n. r = Inr (rs, n) \<longrightarrow> rs = results @ new \<and> loaded new
             \<and> map lr_csv_file new = present E keys)
      \<and> (\<forall>e. r = Inl e \<longrightarrow> new \<noteq> [] \<and> lr_status (last new) = Failed
             \<and> lr_error (last new) = Some (str e))"
proof (induction keys arbitrary: results tot s)
  case Nil
  then show ?case
    by (intro exI[of _ "[]"]) (auto simp: present_def loaded_def)
next
  case (Cons fn keys)
  show ?case
  proof (cases "csv_files E fn = None")
    case True
    with Cons.prems have "load_all_loop E uc keys results tot s = (r, s')" by simp
    from Cons.IH[OF this] True show ?thesis by (simp add: present_def)
  next
    case False
    obtain r1 s1 where l: "load_csv E fn uc s = (r1, s1)" by (cases "load_csv E fn uc s")
    from load_csv_effect[OF l] obtain entry xs where
      e: "load_log s1 = load_log s @ [entry]" "deployment_log s1 = deployment_log s"
         "calls s1 = calls s @ xs" "list_all loader_stmt xs" "lr_csv_file entry = fn"
         "\<forall>res. r1 = Inr res \<longrightarrow> res = entry \<and> lr_status entry = Success"
         "\<forall>e. r1 = Inl e \<longrightarrow> lr_status entry = Failed \<and> lr_error entry = Some (str e)"
      by blast
    have pk: "present E (fn # keys) = fn # present E keys"
      using False by (simp add: present_def)
    show ?thesis
    proof (cases r1)
      case (Inl err)
      with Cons.prems False l have rs: "r = Inl err" "s' = s1" by auto
      have j: "\<exists>j. map lr_csv_file [entry] = take j (present E (fn # keys))"
        unfolding pk using e(5) by (intro exI[of _ "Suc 0"]) simp
      from rs e Inl j show ?thesis
        by (intro exI[of _ "[entry]"] exI[of _ xs]) (simp add: loaded_def)
    next
      case (Inr res)
      with e have res: "res = entry" "lr_status entry = Success" by auto
      from Cons.prems False l Inr
      have rec: "load_all_loop E uc keys (results @ [res])
                   (tot + (case lr_rows_loaded res of None \<Rightarrow> 0 | Some n \<Rightarrow> n)) s1 = (r, s')"
        by simp
      from Cons.IH[OF rec] obtain new ys j where
        n: "load_log s' = load_log s1 @ new" "deployment_log s' = deployment_log s1"
           "calls s' = calls s1 @ ys" "list_all loader_stmt ys"
           "map lr_csv_file new = take j (present E keys)"
           "loaded (butlast new)"
           "\<forall>rs n. r = Inr (rs, n) \<longrightarrow> rs = (results @ [res]) @ new \<and> loaded new
               \<and> map lr_csv_file new = present E keys"
           "\<forall>e. r = Inl e \<longrightarrow> new \<noteq> [] \<and> lr_status (last new) = Failed
               \<and> lr_error (last new) = Some (str e)"
        by blast
      have j: "\<exists>j'. map lr_csv_file (entry # new) = take j' (present E (fn # keys))"
        unfolding pk using n(5) e(5) by (intro exI[of _ "Suc j"]) simp
      have bl: "loaded (butlast (entry # new))"
        using n(6) res by (simp add: loaded_def)
      have ok: "\<forall>rs n. r = Inr (rs, n) \<longrightarrow> rs = results @ (entry # new) \<and> loaded (entry # new)
               \<and> map lr_csv_file (entry # new) = present E (fn # keys)"
        unfolding pk using n(7) res e(5) by (simp add: loaded_def)
      have bad: "\<forall>e. r = Inl e \<longrightarrow> entry # new \<noteq> [] \<and> lr_status (last (entry # new)) = Failed
               \<and> lr_error (last (entry # new)) = Some (str e)"
        using n(8) by simp
      from n(1-4) e(1-4) j bl ok bad show ?thesis
        by (intro exI[of _ "entry # new"] exI[of _ "xs @ ys"]) simp
    qed
  qed
qed

lemma load_all_csvs_effect:
  assumes "load_all_csvs E uc s = (r, s')"
  shows "\<exists>new xs. load_log s' = load_log s @ new \<and> ls_load_log r = load_log s'
     \<and> deployment_log s' = deployment_log s
     \<and> calls s' = calls s @ xs \<and> list_all loader_stmt xs
     \<and> (\<exists>j. map lr_csv_file new = take j (present E (map fst CSV_TABLE_MAPPING)))
     \<and> loaded (butlast new)
     \<and> (ls_status r = Success \<or> ls_status r = Failed)
     \<and> (ls_status r = Success \<longrightarrow> loaded new
           \<and> map lr_csv_file new = present E (map fst CSV_TABLE_MAPPING)
           \<and> ls_files_loaded r = Some (length new) \<and> ls_error r = None)
     \<and> (ls_status r = Failed \<longrightarrow> new \<noteq> [] \<and> lr_status (last new) = Failed
           \<and> ls_error r = lr_error (last new) \<and> (\<exists>msg. ls_error r = Some msg)
           \<and> ls_files_loaded r = None)"
proof -
  obtain t0 s0 where n0: "now E s = (t0, s0)" by (cases "now E s")
  obtain r1 s1 where lp: "load_all_loop E uc (map fst CSV_TABLE_MAPPING) [] 0 s0 = (r1, s1)"
    by (cases "load_all_loop E uc (map fst CSV_TABLE_MAPPING) [] 0 s0")
  obtain t1 s2 where n1: "now E s1 = (t1, s2)" by (cases "now E s1")
  note a = now_state[OF n0] and b = now_state[OF n1]
  from load_all_loop_effect[OF lp] obtain new xs where
    n: "load_log s1 = load_log s0 @ new" "deployment_log s1 = deployment_log s0"
       "calls s1 = calls s0 @ xs" "list_all loader_stmt xs"
       "\<exists>j. map lr_csv_file new = take j (present E (map fst CSV_TABLE_MAPPING))"
       "loaded (butlast new)"
       "\<forall>rs n. r1 = Inr (rs, n) \<longrightarrow> rs = [] @ new \<and> loaded new
           \<and> map lr_csv_file new = present E (map fst CSV_TABLE_MAPPING)"
       "\<forall>e. r1 = Inl e \<longrightarrow> new \<noteq> [] \<and> lr_status (last new) = Failed
           \<and> lr_error (last new) = Some (str e)"
    by blast
  show ?thesis
  proof (cases r1)
    case (Inl e)
    have r: "r = \<lparr>ls_status = Failed, ls_error = Some (str e),
                  ls_total_duration_seconds = t1 - t0,
                  ls_files_loaded = None, ls_total_rows = None,
                  ls_load_log = load_log s2, ls_timestamp = t0\<rparr>" "s' = s2"
      using assms n0 lp n1 Inl by (auto simp: load_all_csvs_def)
    with n a b Inl show ?thesis
      by (intro exI[of _ new] exI[of _ xs]) simp
  next
    case (Inr y)
    obtain rs tot where y: "y = (rs, tot)" by (cases y)
    have r: "r = \<lparr>ls_status = Success, ls_error = None,
                  ls_total_duration_seconds = t1 - t0,
                  ls_files_loaded = Some (length rs), ls_total_rows = Some tot,
                  ls_load_log = load_log s2, ls_timestamp = t0\<rparr>" "s' = s2"
      using assms n0 lp n1 Inr y by (auto simp: load_all_csvs_def)
    with n a b Inr y show ?thesis
      by (intro exI[of _ new] exI[of _ xs]) simp
  qed
qed

text \<open>
  Claim C5. \<open>load_all_csvs\<close> logs one result for each mapped file that is present, in the
  order of the mapping, up to and including the first failure; a file that is not there is
  passed over and the loop goes on with the next one, while an exception of \<open>load_csv\<close>
  for a present file leaves the loop at once. On success every present file was loaded; on
  failure the summary has status failed and the message of the last, failed, log entry,
  and in both cases it holds the load log as accumulated so far. The tolerance is the
  loop's alone: \<open>load_csv\<close> itself raises for a mapped file that is missing, and so does
  loading a missing SQL script.
\<close>

theorem load_all_csvs_skips_missing_and_fails_fast:
  assumes run: "load_all_csvs E uc s = (r, s')"
  shows "\<exists>new. load_log s' = load_log s @ new \<and> ls_load_log r = load_log s'
     \<and> (\<exists>j. map lr_csv_file new = take j (present E (map fst CSV_TABLE_MAPPING)))
     \<and> loaded (butlast new)
     \<and> (ls_status r = Success \<or> ls_status r = Failed)
     \<and> (ls_status r = Success \<longrightarrow> loaded new
           \<and> map lr_csv_file new = present E (map fst CSV_TABLE_MAPPING)
           \<and> ls_files_loaded r = Some (length new) \<and> ls_error r = None)
     \<and> (ls_status r = Failed \<longrightarrow> new \<noteq> [] \<and> lr_status (last new) = Failed
           \<and> ls_error r = lr_error (last new) \<and> (\<exists>msg. ls_error r = Some msg))
     \<and> (\<forall>fn rest results tot s0. csv_files E fn = None \<longrightarrow>
           load_all_loop E uc (fn # rest) results tot s0 = load_all_loop E uc rest results tot s0)
     \<and> (\<forall>fn rest results tot s0 e s1. csv_files E fn \<noteq> None \<longrightarrow>
           load_csv E fn uc s0 = (Inl e, s1) \<longrightarrow>
           load_all_loop E uc (fn # rest) results tot s0 = (Inl e, s1))
     \<and> (\<forall>fn s0. csv_files E fn = None \<longrightarrow> map_of CSV_TABLE_MAPPING fn \<noteq> None \<longrightarrow>
           (\<exists>m. fst (load_csv E fn uc s0) = Inl (FileNotFoundError m)))
     \<and> (\<forall>folder fn. sql_files E folder fn = None \<longrightarrow>
           (\<exists>m. load_sql_file E folder fn = Inl (FileNotFoundError m)))"
proof -
  from load_all_csvs_effect[OF run] obtain new where
    n: "load_log s' = load_log s @ new" "ls_load_log r = load_log s'"
       "\<exists>j. map lr_csv_file new = take j (present E (map fst CSV_TABLE_MAPPING))"
       "loaded (butlast new)" "ls_status r = Success \<or> ls_status r = Failed"
       "ls_status r = Success \<longrightarrow> loaded new
           \<and> map lr_csv_file new = present E (map fst CSV_TABLE_MAPPING)
           \<and> ls_files_loaded r = Some (length new) \<and> ls_error r = None"
       "ls_status r = Failed \<longrightarrow> new \<noteq> [] \<and> lr_status (last new) = Failed
           \<and> ls_error r = lr_error (last new) \<and> (\<exists>msg. ls_error r = Some msg)"
    by blast
  have skip: "\<forall>fn rest results tot s0. csv_files E fn = None \<longrightarrow>
           load_all_loop E uc (fn # rest) results tot s0 = load_all_loop E uc rest results tot s0"
    by simp
  have abort: "\<forall>fn rest results tot s0 e s1. csv_files E fn \<noteq> None \<longrightarrow>
           load_csv E fn uc s0 = (Inl e, s1) \<longrightarrow>
           load_all_loop E uc (fn # rest) results tot s0 = (Inl e, s1)"
    by auto
  have single: "\<forall>fn s0. csv_files E fn = None \<longrightarrow> map_of CSV_TABLE_MAPPING fn \<noteq> None \<longrightarrow>
           (\<exists>m. fst (load_csv E fn uc s0) = Inl (FileNotFoundError m))"
    by (auto simp: load_csv_def load_csv_try_def get_csv_path_def Let_def split: prod.splits)
  have sql: "\<forall>folder fn. sql_files E folder fn = None \<longrightarrow>
           (\<exists>m. load_sql_file E folder fn = Inl (FileNotFoundError m))"
    by (simp add: load_sql_file_def)
  show ?thesis
    using n skip abort single sql by (intro exI[of _ new] conjI) assumption+
qed

text \<open>
  At concrete runs: with \<open>raw_company_info.csv\<close> missing, \<open>new_agents.csv\<close> is still
  loaded; with both files present and the first one rejected by the server, the second is
  never attempted and the failed summary keeps the log.
\<close>

theorem load_all_csvs_skips_missing_and_fails_fast_witness:
  "csv_files (demo_env []) ''raw_company_info.csv'' = None
   \<and> ls_status (fst (load_all_csvs (demo_env []) True demo_state)) = Success
   \<and> ls_files_loaded (fst (load_all_csvs (demo_env []) True demo_state)) = Some 1
   \<and> map lr_csv_file (load_log (snd (load_all_csvs (demo_env []) True demo_state)))
       = [''new_agents.csv'']
   \<and> ls_status (fst (load_all_csvs
         ((demo_env [CopyFromStdin ''public'' ''company_info_raw'' [''7''],
                     InsertOnConflictDoNothing ''public'' ''company_info_raw'' [''id''] [VStr ''7'']])
            \<lparr>csv_files := all_csv_files\<rparr>) True demo_state)) = Failed
   \<and> map lr_csv_file (ls_load_log (fst (load_all_csvs
         ((demo_env [CopyFromStdin ''public'' ''company_info_raw'' [''7''],
                     InsertOnConflictDoNothing ''public'' ''company_info_raw'' [''id''] [VStr ''7'']])
            \<lparr>csv_files := all_csv_files\<rparr>) True demo_state)))
       = [''raw_company_info.csv'']
   \<and> map lr_status (ls_load_log (fst (load_all_csvs
         ((demo_env [CopyFromStdin ''public'' ''company_info_raw'' [''7''],
                     InsertOnConflictDoNothing ''public'' ''company_info_raw'' [''id''] [VStr ''7'']])
            \<lparr>csv_files := all_csv_files\<rparr>) True demo_state)))
       = [Failed]"
proof -
  let ?ok = "load_all_csvs (demo_env []) True demo_state"
  let ?E = "(demo_env [CopyFromStdin ''public'' ''company_info_raw'' [''7''],
                     InsertOnConflictDoNothing ''public'' ''company_info_raw'' [''id''] [VStr ''7'']])
            \<lparr>csv_files := all_csv_files\<rparr>"
  let ?bad = "load_all_csvs ?E True demo_state"
  have run: "?ok = (fst ?ok, snd ?ok)" by simp
  have st: "ls_status (fst ?ok) = Success" by (simp add: demo_defs loader_defs)
  have pr: "present (demo_env []) (map fst CSV_TABLE_MAPPING) = [''new_agents.csv'']"
    by (simp add: present_def demo_defs loader_defs)
  have e: "load_log demo_state = []" by (simp add: demo_state_def)
  from load_all_csvs_skips_missing_and_fails_fast[OF run] st pr e
  have 1: "ls_files_loaded (fst ?ok) = Some 1
     \<and> map lr_csv_file (load_log (snd ?ok)) = [''new_agents.csv'']"
    by (auto dest!: arg_cong[where f=length])
  have 0: "csv_files (demo_env []) ''raw_company_info.csv'' = None"
    by (simp add: demo_defs loader_defs)
  have 2: "ls_status (fst ?bad) = Failed"
    by (simp add: demo_defs loader_defs all_csv_files_def)
  have 3: "map lr_csv_file (ls_load_log (fst ?bad)) = [''raw_company_info.csv'']"
    by (simp add: demo_defs loader_defs all_csv_files_def)
  have 4: "map lr_status (ls_load_log (fst ?bad)) = [Failed]"
    by (simp add: demo_defs loader_defs all_csv_files_def)
  from 0 st 1 2 3 4 show ?thesis by simp
qed

lemma get_pipeline_stats_sends:
  assumes "get_pipeline_stats E s = (st, s')"
  shows "\<exists>xs. sends s s' xs \<and> (\<exists>k. xs = take k [PipelineStatsQuery])"
proof -
  let ?body = "\<lambda>cur s0.
             case execute E cur PipelineStatsQuery s0 of
               (Inl e, s1) \<Rightarrow> (Inl e, s1)
             | (Inr r, s1) \<Rightarrow>
                 (case item ''total_count'' (fetchone cur r) of
                    Inl e \<Rightarrow> (Inl e, s1)
                  | Inr total_count \<Rightarrow>
                      (case item ''needs_review_count'' (fetchone cur r) of
                         Inl e \<Rightarrow> (Inl e, s1)
                       | Inr needs_review_count \<Rightarrow>
                           (case item ''avg_confidence'' (fetchone cur r) of
                              Inl e \<Rightarrow> (Inl e, s1)
                            | Inr avg \<Rightarrow>
                                (Inr [(''unified_agents_count'', total_count),
                                      (''needs_review_count'', needs_review_count),
                                      (''avg_confidence'', if truthy avg then avg else VInt 0)],
                                 s1))))"
  obtain r1 s1 where g: "get_cursor E True False ?body s = (r1, s1)"
    by (cases "get_cursor E True False ?body s")
  have "\<exists>xs. sends s s1 xs \<and> prefix_run [PipelineStatsQuery] (\<not> isl r1) xs"
    using g by (rule execute_only_sends) (simp split: sum.splits)
  moreover have "s' = s1" using assms g by (cases r1) (simp_all add: get_pipeline_stats_def)
  ultimately show ?thesis by (auto simp: prefix_run_def)
qed

lemma count_list_take_single:
  "q \<noteq> p \<Longrightarrow> count_list (take k [p]) q = 0"
  by (cases k) auto

lemma count_list_take_single_le: "count_list (take k [p]) q \<le> Suc 0"
  by (cases k) auto

lemma count_list_loader:
  "list_all loader_stmt xs \<Longrightarrow> count_list xs (CallProcedure name) = 0"
  by (induction xs) auto

text \<open>
  Claim C2. In a run of \<open>run_data_pipeline\<close> each of the two procedures is called at most
  once. When \<open>load_all_csvs\<close> does not return status success, the pipeline fails with
  \<open>CSV loading failed\<close> and neither procedure is called. When the loading succeeded and the
  call of \<open>run_unified_member_pipeline\<close> raises, the pipeline fails with the message of
  that exception and \<open>run_unified_merge_batch\<close> is called zero times. A successful
  pipeline has called each procedure exactly once.
\<close>

theorem run_data_pipeline_sequential:
  assumes run: "run_data_pipeline E s = (r, s')"
      and load: "load_all_csvs E True (snd (now E s)) = (ls, s1)"
  shows "\<exists>xs. calls s' = calls s @ xs
     \<and> count_list xs (CallProcedure member_pipeline) \<le> 1
     \<and> count_list xs (CallProcedure merge_batch) \<le> 1
     \<and> (ls_status ls \<noteq> Success \<longrightarrow>
           ps_status r = Failed \<and> ps_error r = Some ''CSV loading failed''
           \<and> count_list xs (CallProcedure member_pipeline) = 0
           \<and> count_list xs (CallProcedure merge_batch) = 0)
     \<and> (ls_status ls = Success \<longrightarrow>
           (\<forall>e. fst (call_procedure E member_pipeline s1) = Inl e \<longrightarrow>
              ps_status r = Failed \<and> ps_error r = Some (str e)
              \<and> count_list xs (CallProcedure merge_batch) = 0))
     \<and> (ps_status r = Success \<longrightarrow>
           count_list xs (CallProcedure member_pipeline) = 1
           \<and> count_list xs (CallProcedure merge_batch) = 1)"
proof -
  obtain t0 s0 where n0: "now E s = (t0, s0)" by (cases "now E s")
  obtain r1 sa where st: "run_data_pipeline_steps E s0 = (r1, sa)"
    by (cases "run_data_pipeline_steps E s0")
  obtain t1 sb where n1: "now E sa = (t1, sb)" by (cases "now E sa")
  note a = now_state[OF n0] and b = now_state[OF n1]
  have ld: "load_all_csvs E True s0 = (ls, s1)" using load n0 by simp
  from load_all_csvs_effect[OF ld] obtain xs where
    x: "calls s1 = calls s0 @ xs" "list_all loader_stmt xs" by blast
  note cx = count_list_loader[OF x(2)]
  have ne: "member_pipeline \<noteq> merge_batch" by (simp add: member_pipeline_def merge_batch_def)
  have fin: "s' = sb" "ps_status r = (if isl r1 then Failed else Success)"
    "\<And>e. r1 = Inl e \<Longrightarrow> ps_error r = Some (str e)"
    using run n0 st n1 by (cases r1; auto simp: run_data_pipeline_def)+
  show ?thesis
  proof (cases "ls_status ls = Success")
    case False
    with st ld have r1: "r1 = Inl (GenericException ''CSV loading failed'')" "sa = s1"
      by (auto simp: run_data_pipeline_steps_def)
    with fin x a b False cx show ?thesis
      by (intro exI[of _ xs]) simp
  next
    case True
    obtain r2 s2 where m: "call_procedure E member_pipeline s1 = (r2, s2)"
      by (cases "call_procedure E member_pipeline s1")
    from call_procedure_sends[OF m] obtain ys where
      y0: "sends s1 s2 ys" "prefix_run [CallProcedure member_pipeline] (\<not> isl r2) ys" by blast
    from y0(2) obtain k where yk: "ys = take k [CallProcedure member_pipeline]"
      unfolding prefix_run_def by blast
    from y0(2) have yc: "\<not> isl r2 \<longrightarrow> ys = [CallProcedure member_pipeline]"
      unfolding prefix_run_def by blast
    note y = y0(1) yk yc
    show ?thesis
    proof (cases r2)
      case (Inl e)
      with st ld True m have r1: "r1 = Inl e" "sa = s2"
        by (auto simp: run_data_pipeline_steps_def)
      have c: "calls s' = calls s @ (xs @ ys)"
        using fin r1 x y(1) a b by (simp add: sends_def)
      have "count_list (xs @ ys) (CallProcedure member_pipeline) \<le> 1"
           "count_list (xs @ ys) (CallProcedure merge_batch) = 0"
        using cx y(2) ne by (simp_all add: count_list_take_single count_list_take_single_le)
      with c fin r1 True m Inl show ?thesis
        by (intro exI[of _ "xs @ ys"]) simp
    next
      case (Inr u)
      with y have ys: "ys = [CallProcedure member_pipeline]" by simp
      obtain r3 s3 where g: "call_procedure E merge_batch s2 = (r3, s3)"
        by (cases "call_procedure E merge_batch s2")
      from call_procedure_sends[OF g] obtain zs where
        z0: "sends s2 s3 zs" "prefix_run [CallProcedure merge_batch] (\<not> isl r3) zs" by blast
      from z0(2) obtain j where zj: "zs = take j [CallProcedure merge_batch]"
        unfolding prefix_run_def by blast
      from z0(2) have zc: "\<not> isl r3 \<longrightarrow> zs = [CallProcedure merge_batch]"
        unfolding prefix_run_def by blast
      note z = z0(1) zj zc
      show ?thesis
      proof (cases r3)
        case (Inl e)
        with st ld True m Inr g have r1: "r1 = Inl e" "sa = s3"
          by (auto simp: run_data_pipeline_steps_def)
        have c: "calls s' = calls s @ (xs @ ys @ zs)"
          using fin r1 x y(1) z(1) a b by (simp add: sends_def)
        have "count_list (xs @ ys @ zs) (CallProcedure member_pipeline) \<le> 1"
             "count_list (xs @ ys @ zs) (CallProcedure merge_batch) \<le> 1"
          using cx ys z(2) ne
          by (simp_all add: count_list_take_single count_list_take_single_le)
        with c fin r1 True m Inr show ?thesis
          by (intro exI[of _ "xs @ ys @ zs"]) simp
      next
        case mg: (Inr u2)
        with z have zs: "zs = [CallProcedure merge_batch]" by simp
        obtain stats s4 where p: "get_pipeline_stats E s3 = (stats, s4)"
          by (cases "get_pipeline_stats E s3")
        from get_pipeline_stats_sends[OF p] obtain ws i where
          w: "sends s3 s4 ws" "ws = take i [PipelineStatsQuery]" by blast
        from st ld True m Inr g mg p have r1: "r1 = Inr (ls, stats)" "sa = s4"
          by (auto simp: run_data_pipeline_steps_def)
        have c: "calls s' = calls s @ (xs @ ys @ zs @ ws)"
          using fin r1 x y(1) z(1) w(1) a b by (simp add: sends_def)
        have "count_list (xs @ ys @ zs @ ws) (CallProcedure member_pipeline) = 1"
             "count_list (xs @ ys @ zs @ ws) (CallProcedure merge_batch) = 1"
          using cx ys zs w(2) ne
          by (simp_all add: count_list_take_single)
        with c fin r1 True m Inr show ?thesis
          by (intro exI[of _ "xs @ ys @ zs @ ws"]) simp
      qed
    qed
  qed
qed

lemmas pipeline_defs = run_data_pipeline_def run_data_pipeline_steps_def call_procedure_def
  get_pipeline_stats_def member_pipeline_def merge_batch_def

text \<open>
  At concrete runs: the server rejects the reconciliation procedure, and the merge
  procedure is not called; it rejects nothing, and the merge procedure is called once.
\<close>

theorem run_data_pipeline_sequential_witness:
  "ps_status (fst (run_data_pipeline (demo_env [CallProcedure member_pipeline]) demo_state)) = Failed
   \<and> ps_error (fst (run_data_pipeline (demo_env [CallProcedure member_pipeline]) demo_state))
       = Some ''statement rejected''
   \<and> count_list (calls (snd (run_data_pipeline (demo_env [CallProcedure member_pipeline]) demo_state)))
        (CallProcedure merge_batch) = 0
   \<and> ps_status (fst (run_data_pipeline (demo_env []) demo_state)) = Success
   \<and> count_list (calls (snd (run_data_pipeline (demo_env []) demo_state)))
        (CallProcedure merge_batch) = 1"
proof -
  let ?E = "demo_env [CallProcedure member_pipeline]"
  let ?run = "run_data_pipeline ?E demo_state"
  let ?load = "load_all_csvs ?E True (snd (now ?E demo_state))"
  let ?ok = "run_data_pipeline (demo_env []) demo_state"
  let ?okload = "load_all_csvs (demo_env []) True (snd (now (demo_env []) demo_state))"
  have run: "?run = (fst ?run, snd ?run)" and load: "?load = (fst ?load, snd ?load)" by simp_all
  have ls: "ls_status (fst ?load) = Success" by (simp add: demo_defs loader_defs)
  have mp: "fst (call_procedure ?E member_pipeline (snd ?load))
              = Inl (DatabaseError ''statement rejected'')"
    by (simp add: demo_defs loader_defs pipeline_defs)
  have e: "calls demo_state = []" by (simp add: demo_state_def)
  from run_data_pipeline_sequential[OF run load] ls mp e
  have 1: "ps_status (fst ?run) = Failed \<and> ps_error (fst ?run) = Some ''statement rejected''
           \<and> count_list (calls (snd ?run)) (CallProcedure merge_batch) = 0"
    by auto
  have okrun: "?ok = (fst ?ok, snd ?ok)" and okload: "?okload = (fst ?okload, snd ?okload)"
    by simp_all
  have 2: "ps_status (fst ?ok) = Success" by (simp add: demo_defs loader_defs pipeline_defs)
  from run_data_pipeline_sequential[OF okrun okload] 2 e
  have 3: "count_list (calls (snd ?ok)) (CallProcedure merge_batch) = 1" by auto
  from 1 2 3 show ?thesis by simp
qed

lemma get_cursor_ready:
  assumes ready: "pool_ready s" and keeps: "keeps_connections body"
  shows "pool (snd (get_cursor E dc ac body s)) = pool s
       \<and> autocommit (conns (snd (get_cursor E dc ac body s)) c)
           = (if c = last (idle (pool s)) then ac \<or> autocommit (conns s c) else autocommit (conns s c))
       \<and> cursor_factory (conns (snd (get_cursor E dc ac body s)) c)
           = (if c = last (idle (pool s)) \<and> dc then RealDictCursor else cursor_factory (conns s c))"
proof -
  let ?c = "last (idle (pool s))"
  define s1 where "s1 = s\<lparr>pool := (pool s)\<lparr>idle := butlast (idle (pool s)), used := Suc (used (pool s))\<rparr>\<rparr>"
  define s2 where "s2 = (if dc then s1\<lparr>conns := (conns s1)(?c := (conns s1 ?c)\<lparr>cursor_factory := RealDictCursor\<rparr>)\<rparr> else s1)"
  define s3 where "s3 = (if ac then s2\<lparr>conns := (conns s2)(?c := (conns s2 ?c)\<lparr>autocommit := True\<rparr>)\<rparr> else s2)"
  define cur where "cur = \<lparr>cur_conn = ?c, cur_kind = cursor_factory (conns s3 ?c)\<rparr>"
  have g: "getconn E s = (Inr ?c, s1)"
    using ready by (simp add: getconn_def pool_ready_def s1_def Let_def)
  obtain rb sb where b: "body cur s3 = (rb, sb)" by (cases "body cur s3")
  have eq: "get_cursor E dc ac body s =
        (case body cur s3 of
           (Inr x, t) \<Rightarrow> (Inr x, putconn ?c (if \<not> ac then commit ?c t else t))
         | (Inl e, t) \<Rightarrow> (Inl e, putconn ?c (rollback ?c (if \<not> ac then rollback ?c t else t))))"
    using g
    by (simp add: get_cursor_def get_connection_def Let_def s3_def s2_def cur_def
          split: prod.splits sum.splits)
  from keeps b have k: "pool sb = pool s3"
    "\<And>c. autocommit (conns sb c) = autocommit (conns s3 c)"
    "\<And>c. cursor_factory (conns sb c) = cursor_factory (conns s3 c)"
    unfolding keeps_connections_def by (metis snd_conv)+
  have p3: "pool s3 = (pool s)\<lparr>idle := butlast (idle (pool s)), used := Suc (used (pool s))\<rparr>"
    by (simp add: s3_def s2_def s1_def)
  have restored: "(pool s)\<lparr>idle := butlast (idle (pool s)) @ [?c], used := used (pool s)\<rparr> = pool s"
    using ready by (simp add: pool_ready_def)
  have len: "length (butlast (idle (pool s))) < minconn (pool s)"
    using ready by (cases "idle (pool s)" rule: rev_cases) (auto simp: pool_ready_def)
  show ?thesis
    unfolding eq b
    using k p3 restored len
    by (cases rb)
       (auto simp: putconn_def commit_def rollback_def Let_def s3_def s2_def s1_def
          split: option.splits)
qed

lemma connection_flags_keeps: "keeps_connections connection_flags"
  by (simp add: keeps_connections_def connection_flags_def)

lemma execute_keeps:
  "pool (snd (execute E cur q s)) = pool s
   \<and> autocommit (conns (snd (execute E cur q s)) c) = autocommit (conns s c)
   \<and> cursor_factory (conns (snd (execute E cur q s)) c) = cursor_factory (conns s c)"
  by (simp add: execute_def begin_txn_def Let_def split: prod.splits)

lemma execute_script_body_keeps:
  "keeps_connections (\<lambda>cur s. case execute E cur q s of
       (Inl e, s1) \<Rightarrow> (Inl e, s1) | (Inr r, s1) \<Rightarrow> (Inr (), s1))"
  unfolding keeps_connections_def
proof (intro allI)
  fix cur s0 c
  obtain r t where x: "execute E cur q s0 = (r, t)" by (cases "execute E cur q s0")
  with execute_keeps[of E cur q s0 c] show
    "pool (snd (case execute E cur q s0 of (Inl e, s1) \<Rightarrow> (Inl e, s1) | (Inr r, s1) \<Rightarrow> (Inr (), s1))) = pool s0
     \<and> autocommit (conns (snd (case execute E cur q s0 of (Inl e, s1) \<Rightarrow> (Inl e, s1) | (Inr r, s1) \<Rightarrow> (Inr (), s1))) c) = autocommit (conns s0 c)
     \<and> cursor_factory (conns (snd (case execute E cur q s0 of (Inl e, s1) \<Rightarrow> (Inl e, s1) | (Inr r, s1) \<Rightarrow> (Inr (), s1))) c) = cursor_factory (conns s0 c)"
    by (cases r) simp_all
qed

lemma probe_ready:
  assumes "pool_ready s"
  shows "fst (get_cursor E False False connection_flags s)
         = Inr (autocommit (conns s (last (idle (pool s)))),
                cursor_factory (conns s (last (idle (pool s)))))"
  using assms
  by (simp add: get_cursor_def get_connection_def getconn_def pool_ready_def Let_def
        connection_flags_def)

lemma DatabaseManager_ready:
  "DatabaseManager E url 1 10 s = (Inr u, s') \<Longrightarrow>
     pool_ready s' \<and> conns s' (last (idle (pool s'))) = new_conn"
  by (auto simp: DatabaseManager_def ThreadedConnectionPool_def connect_def pool_ready_def
        Let_def split: if_splits)

text \<open>
  Claim C9. Take a pool whose next checkout gives the connection \<open>c\<close> and gets it back
  afterwards (as the pool of the manager is between two uses), and a body that leaves the
  pool and the attributes of the connections alone (as every body of the package does).
  After \<open>get_cursor(autocommit=True)\<close> the connection \<open>c\<close> is back in the pool with
  \<open>autocommit\<close> still set: nothing resets it. The next checkout receives \<open>c\<close> again, and a
  following \<open>get_cursor()\<close> that asked for neither autocommit nor a dictionary cursor
  finds the connection in autocommit mode. In the same way, after
  \<open>get_cursor(dict_cursor=True)\<close> the cursor factory of \<open>c\<close> stays \<open>RealDictCursor\<close>, and
  the cursor of a following plain \<open>get_cursor()\<close> is a dictionary cursor.
\<close>

theorem autocommit_and_cursor_factory_persist:
  assumes ready: "pool_ready s" and keeps: "keeps_connections body"
  shows "autocommit (conns (snd (get_cursor E False True body s)) (last (idle (pool s))))
       \<and> pool (snd (get_cursor E False True body s)) = pool s
       \<and> fst (getconn E (snd (get_cursor E False True body s))) = Inr (last (idle (pool s)))
       \<and> fst (get_cursor E False False connection_flags (snd (get_cursor E False True body s)))
           = Inr (True, cursor_factory (conns s (last (idle (pool s)))))
       \<and> cursor_factory (conns (snd (get_cursor E True False body s)) (last (idle (pool s))))
           = RealDictCursor
       \<and> pool (snd (get_cursor E True False body s)) = pool s
       \<and> fst (getconn E (snd (get_cursor E True False body s))) = Inr (last (idle (pool s)))
       \<and> fst (get_cursor E False False connection_flags (snd (get_cursor E True False body s)))
           = Inr (autocommit (conns s (last (idle (pool s)))), RealDictCursor)"
proof -
  let ?c = "last (idle (pool s))"
  let ?s1 = "snd (get_cursor E False True body s)"
  let ?s2 = "snd (get_cursor E True False body s)"
  note a = get_cursor_ready[OF ready keeps, of E False True ?c]
  note b = get_cursor_ready[OF ready keeps, of E True False ?c]
  have r1: "pool_ready ?s1" and r2: "pool_ready ?s2"
    using a b ready by (simp_all add: pool_ready_def)
  have g1: "fst (getconn E ?s1) = Inr ?c" and g2: "fst (getconn E ?s2) = Inr ?c"
    using a b ready by (simp_all add: getconn_def pool_ready_def Let_def)
  from probe_ready[OF r1, of E] probe_ready[OF r2, of E] a b g1 g2 show ?thesis by simp
qed

text \<open>
  At a concrete state with one idle connection, not in autocommit mode and with tuple
  cursors: after \<open>execute_script\<close> (which asks for autocommit) a plain cursor sees
  autocommit; after a dictionary cursor was asked for, a plain cursor is a dictionary cursor.
\<close>

theorem autocommit_and_cursor_factory_persist_witness:
  "pool_ready demo_state
   \<and> autocommit (conns demo_state 0) = False
   \<and> fst (get_cursor (demo_env []) False False connection_flags
            (snd (execute_script (demo_env []) ''CREATE TABLE t ()'' True demo_state)))
       = Inr (True, TupleCursor)
   \<and> fst (get_cursor (demo_env []) False False connection_flags
            (snd (get_cursor (demo_env []) True False
                    (\<lambda>cur s. case execute (demo_env []) cur DatabaseInfoQuery s of
                                (Inl e, s1) \<Rightarrow> (Inl e, s1) | (Inr r, s1) \<Rightarrow> (Inr (), s1))
                    demo_state)))
       = Inr (False, RealDictCursor)"
proof -
  have ready: "pool_ready demo_state" by (simp add: pool_ready_def demo_state_def)
  have c: "last (idle (pool demo_state)) = 0" "autocommit (conns demo_state 0) = False"
    "cursor_factory (conns demo_state 0) = TupleCursor"
    by (simp_all add: demo_state_def new_conn_def)
  from autocommit_and_cursor_factory_persist[OF ready execute_script_body_keeps,
         of "demo_env []" "demo_env []" "Script ''CREATE TABLE t ()''"]
       autocommit_and_cursor_factory_persist[OF ready execute_script_body_keeps,
         of "demo_env []" "demo_env []" DatabaseInfoQuery]
       ready c
  show ?thesis by (simp add: execute_script_def)
qed




















end
